theory Spec2Isabelle
  imports Complex_Main "HOL-Library.AList" "HOL-Library.Char_ord" "HOL-Library.Multiset"
    "HOL-Library.List_Lexorder" "HOL-Library.Product_Lexorder"
begin

section \<open>Whale curve analyzer: the data model\<close>

text \<open>
  The program (\<^verbatim>\<open>whale_curve_analyzer.py\<close>) works on pandas data frames read from two
  spreadsheets. A cell of a frame is modelled as

  \<^item> \<open>NaN\<close>: the missing value (an empty spreadsheet cell, and the float \<open>nan\<close>);
  \<^item> \<open>Num q\<close>: a finite number. The rounding of float64 and the wrap-around of int64
    are not modelled: finite numbers are exact rationals, and signed zeros are not
    distinguished. A property that rests on a sum, a product or a quotient being exact
    is stated for whole numbers small enough for the machine arithmetic to be exact;
  \<^item> \<open>PInf\<close>, \<open>NInf\<close>: the floats \<open>inf\<close> and \<open>-inf\<close>, which numpy division
    by zero produces instead of raising;
  \<^item> \<open>Str s\<close>: a text cell.

  Booleans and dates are outside the model.
\<close>

datatype cell = NaN | NInf | Num rat | PInf | Str string

fun is_Str :: "cell \<Rightarrow> bool" where
  "is_Str (Str s) = True"
| "is_Str c = False"

text \<open>
  A row is the association list of its column names and cells; a frame is its list of
  column names and its rows, in order. Row labels (the pandas index) are not modelled:
  nothing in the program reads them.
\<close>

type_synonym row = "(string \<times> cell) list"

record frame =
  columns :: "string list"
  rows :: "row list"

text \<open>The exceptions the modelled pandas and Python operations raise.\<close>

datatype error = KeyError string | TypeError | MergeError | ValueError

definition ebind :: "error + 'a \<Rightarrow> ('a \<Rightarrow> error + 'b) \<Rightarrow> error + 'b" where
  "ebind m f = (case m of Inl e \<Rightarrow> Inl e | Inr a \<Rightarrow> f a)"

text \<open>Evaluating a list of fallible results left to right; the first exception wins.\<close>

fun sequence :: "(error + 'a) list \<Rightarrow> error + 'a list" where
  "sequence [] = Inr []"
| "sequence (Inl e # ms) = Inl e"
| "sequence (Inr a # ms) = (case sequence ms of Inl e \<Rightarrow> Inl e | Inr as \<Rightarrow> Inr (a # as))"

subsection \<open>Arithmetic on cells\<close>

text \<open>
  Python's operators, cell by cell. \<open>+\<close> concatenates two strings and raises TypeError
  on a string and a number; \<open>-\<close>, \<open>*\<close>, \<open>/\<close> and \<open>> 0\<close> raise TypeError on a string
  (\<open>100 * s\<close> would repeat the string, but the quotient that follows raises).
  On numbers the operations are those of IEEE floats without rounding:
  \<open>nan\<close> is absorbing, \<open>inf - inf\<close> is \<open>nan\<close>, and numpy answers a division by zero
  with \<open>inf\<close>, \<open>-inf\<close> or (for \<open>0 / 0\<close>) \<open>nan\<close>.
\<close>

fun cneg :: "cell \<Rightarrow> cell" where
  "cneg (Num a) = Num (- a)"
| "cneg PInf = NInf"
| "cneg NInf = PInf"
| "cneg c = c"

fun cadd :: "cell \<Rightarrow> cell \<Rightarrow> error + cell" where
  "cadd (Str a) (Str b) = Inr (Str (a @ b))"
| "cadd (Str a) _ = Inl TypeError"
| "cadd _ (Str b) = Inl TypeError"
| "cadd NaN _ = Inr NaN"
| "cadd _ NaN = Inr NaN"
| "cadd PInf NInf = Inr NaN"
| "cadd NInf PInf = Inr NaN"
| "cadd PInf _ = Inr PInf"
| "cadd _ PInf = Inr PInf"
| "cadd NInf _ = Inr NInf"
| "cadd _ NInf = Inr NInf"
| "cadd (Num a) (Num b) = Inr (Num (a + b))"

fun csub :: "cell \<Rightarrow> cell \<Rightarrow> error + cell" where
  "csub (Str a) _ = Inl TypeError"
| "csub _ (Str b) = Inl TypeError"
| "csub a b = cadd a (cneg b)"

fun cgt0 :: "cell \<Rightarrow> error + bool" where
  "cgt0 (Str a) = Inl TypeError"
| "cgt0 NaN = Inr False"
| "cgt0 NInf = Inr False"
| "cgt0 PInf = Inr True"
| "cgt0 (Num a) = Inr (0 < a)"

text \<open>\<open>100 * x\<close>\<close>

fun cmul100 :: "cell \<Rightarrow> error + cell" where
  "cmul100 (Str a) = Inl TypeError"
| "cmul100 (Num a) = Inr (Num (100 * a))"
| "cmul100 c = Inr c"

text \<open>\<open>x / y\<close> on float arrays: no ZeroDivisionError, as numpy divides.\<close>

fun cdiv :: "cell \<Rightarrow> cell \<Rightarrow> error + cell" where
  "cdiv (Str a) _ = Inl TypeError"
| "cdiv _ (Str b) = Inl TypeError"
| "cdiv NaN _ = Inr NaN"
| "cdiv _ NaN = Inr NaN"
| "cdiv (Num a) (Num b) =
     Inr (if b = 0 then (if a = 0 then NaN else if 0 < a then PInf else NInf)
          else Num (a / b))"
| "cdiv (Num a) _ = Inr (Num 0)"
| "cdiv PInf (Num b) = Inr (if 0 \<le> b then PInf else NInf)"
| "cdiv NInf (Num b) = Inr (if 0 \<le> b then NInf else PInf)"
| "cdiv _ _ = Inr NaN"

text \<open>Column-wise operations: one exception in any row aborts the whole operation.\<close>

definition col_add :: "cell list \<Rightarrow> cell list \<Rightarrow> error + cell list" where
  "col_add xs ys = sequence (map2 cadd xs ys)"

definition col_sub :: "cell list \<Rightarrow> cell list \<Rightarrow> error + cell list" where
  "col_sub xs ys = sequence (map2 csub xs ys)"

definition col_gt0 :: "cell list \<Rightarrow> error + bool list" where
  "col_gt0 xs = sequence (map cgt0 xs)"

text \<open>\<open>100 * xs / d\<close> for a column \<open>xs\<close> and a scalar \<open>d\<close>.\<close>

definition col_pct :: "cell list \<Rightarrow> cell \<Rightarrow> error + cell list" where
  "col_pct xs d = sequence (map (\<lambda>x. ebind (cmul100 x) (\<lambda>y. cdiv y d)) xs)"

text \<open>\<open>100 * xs / ys\<close> for two columns.\<close>

definition col_pct2 :: "cell list \<Rightarrow> cell list \<Rightarrow> error + cell list" where
  "col_pct2 xs ys = sequence (map2 (\<lambda>x y. ebind (cmul100 x) (\<lambda>z. cdiv z y)) xs ys)"

text \<open>\<open>np.where(cond, a, b)\<close>: row by row, \<open>a\<close> where the condition holds, else \<open>b\<close>.\<close>

definition np_where :: "bool list \<Rightarrow> cell list \<Rightarrow> cell list \<Rightarrow> cell list" where
  "np_where cond xs ys = map (\<lambda>(c, x, y). if c then x else y) (zip cond (zip xs ys))"

subsection \<open>Frames\<close>

definition cell_at :: "row \<Rightarrow> string \<Rightarrow> cell" where
  "cell_at r c = (case map_of r c of Some v \<Rightarrow> v | None \<Rightarrow> NaN)"

text \<open>\<open>df[c]\<close>: the column, or KeyError.\<close>

definition get_col :: "frame \<Rightarrow> string \<Rightarrow> error + cell list" where
  "get_col df c =
     (if c \<in> set (columns df) then Inr (map (\<lambda>r. cell_at r c) (rows df))
      else Inl (KeyError c))"

text \<open>\<open>df[c] = vs\<close>: overwrites the column, or appends it as the last one.\<close>

definition set_col :: "frame \<Rightarrow> string \<Rightarrow> cell list \<Rightarrow> frame" where
  "set_col df c vs =
     \<lparr>columns = (if c \<in> set (columns df) then columns df else columns df @ [c]),
      rows = map2 (\<lambda>r v. AList.update c v r) (rows df) vs\<rparr>"

text \<open>
  A column has pandas' string type when it holds text and nothing else beside missing
  values.
\<close>

definition text_column :: "frame \<Rightarrow> string \<Rightarrow> bool" where
  "text_column df c =
     (list_ex (\<lambda>r. is_Str (cell_at r c)) (rows df) \<and>
      list_all (\<lambda>r. is_Str (cell_at r c) \<or> cell_at r c = NaN) (rows df))"

text \<open>
  \<open>df.fillna(v)\<close> for a number \<open>v\<close>: every missing cell of every column becomes
  \<open>v\<close>. A string-typed column takes no number: when one holds a missing cell, the call
  raises TypeError and fills nothing.
\<close>

definition fillna :: "cell \<Rightarrow> frame \<Rightarrow> error + frame" where
  "fillna v df =
     (if list_ex (\<lambda>c. text_column df c \<and> list_ex (\<lambda>r. cell_at r c = NaN) (rows df))
           (columns df)
      then Inl TypeError
      else Inr \<lparr>columns = columns df,
                rows = map (map (\<lambda>(c, x). (c, if x = NaN then v else x))) (rows df)\<rparr>)"

text \<open>
  \<open>pd.merge(left, right, on=key, how='left')\<close>. Every left row is kept, in order; it
  is paired with each right row holding the same key, in the right frame's order (pandas
  matches a missing key with a missing key), and with missing cells when there is none.
  A column name the two frames share, other than the key, gets the suffixes \<open>_x\<close> and
  \<open>_y\<close>; pandas refuses (MergeError) a result with a repeated column name.
  pandas also refuses to merge a text key column with a numeric one; the model covers
  frames whose key columns have one type (the properties below take product ids to be
  text).
\<close>

definition merge :: "frame \<Rightarrow> frame \<Rightarrow> string \<Rightarrow> error + frame" where
  "merge left right key =
     (if key \<notin> set (columns left) \<or> key \<notin> set (columns right) then Inl (KeyError key)
      else
        let rcols = filter (\<lambda>c. c \<noteq> key) (columns right);
            lname = (\<lambda>c. if c \<in> set rcols then c @ ''_x'' else c);
            rname = (\<lambda>c. if c \<in> set (columns left) then c @ ''_y'' else c);
            cols = map lname (columns left) @ map rname rcols
        in if \<not> distinct cols then Inl MergeError
           else Inr \<lparr>columns = cols,
                     rows = concat (map (\<lambda>l.
                       let ms = filter (\<lambda>r. cell_at r key = cell_at l key) (rows right);
                           l' = map (\<lambda>(c, v). (lname c, v)) l
                       in if ms = [] then [l' @ map (\<lambda>c. (rname c, NaN)) rcols]
                          else map (\<lambda>r. l' @ map (\<lambda>c. (rname c, cell_at r c)) rcols) ms)
                       (rows left))\<rparr>)"

section \<open>The merge engine\<close>

text \<open>
  \<^verbatim>\<open>
  def merge_data(sales, cost):
      merged = pd.merge(sales, cost, on='Product ID', how='left')
      merged.fillna(0, inplace=True)
      merged['Unit Cost'] = np.where(
          merged['Standard Total Cost'] > 0,
          merged['Standard Total Cost'],
          merged['Material Cost'] + merged['Labor Cost'] + merged['Overhead Cost'] + merged['Service Cost'])
      merged['Gross Margin $'] = merged['Net Sales $'] - merged['Unit Cost']
      return merged
  \<close>
  The arguments of \<open>np.where\<close> are evaluated before the call, left to right, so a
  missing column raises KeyError whatever the condition says.
\<close>

definition merge_data :: "frame \<Rightarrow> frame \<Rightarrow> error + frame" where
  "merge_data sales cost =
     ebind (merge sales cost ''Product ID'') (\<lambda>joined.
     ebind (fillna (Num 0) joined) (\<lambda>merged.
     ebind (get_col merged ''Standard Total Cost'') (\<lambda>stc.
     ebind (col_gt0 stc) (\<lambda>cond.
     ebind (get_col merged ''Standard Total Cost'') (\<lambda>stc'.
     ebind (get_col merged ''Material Cost'') (\<lambda>mc.
     ebind (get_col merged ''Labor Cost'') (\<lambda>lc.
     ebind (col_add mc lc) (\<lambda>s1.
     ebind (get_col merged ''Overhead Cost'') (\<lambda>oc.
     ebind (col_add s1 oc) (\<lambda>s2.
     ebind (get_col merged ''Service Cost'') (\<lambda>sc.
     ebind (col_add s2 sc) (\<lambda>s3.
     let merged1 = set_col merged ''Unit Cost'' (np_where cond stc' s3) in
     ebind (get_col merged1 ''Net Sales $'') (\<lambda>ns.
     ebind (get_col merged1 ''Unit Cost'') (\<lambda>uc.
     ebind (col_sub ns uc) (\<lambda>gm.
     Inr (set_col merged1 ''Gross Margin $'' gm))))))))))))))))"

section \<open>The dimension aggregator\<close>

text \<open>
  \<open>Series.sum()\<close> and the group-wise \<open>sum\<close> skip missing values and start from
  zero. A text cell cannot be summed with the numbers of the column; the model raises
  TypeError at it (the program only sums the two numeric columns \<open>merge_data\<close> made).
\<close>

fun sum_from :: "cell \<Rightarrow> cell list \<Rightarrow> error + cell" where
  "sum_from acc [] = Inr acc"
| "sum_from acc (x # xs) =
     (if x = NaN then sum_from acc xs else ebind (cadd acc x) (\<lambda>a. sum_from a xs))"

definition col_sum :: "cell list \<Rightarrow> error + cell" where
  "col_sum xs = sum_from (Num 0) xs"

text \<open>
  \<open>Series.cumsum()\<close>: the running sum; a missing value stays missing and is skipped
  by the sum.
\<close>

fun cumsum_from :: "cell \<Rightarrow> cell list \<Rightarrow> error + cell list" where
  "cumsum_from acc [] = Inr []"
| "cumsum_from acc (x # xs) =
     (if x = NaN then ebind (cumsum_from acc xs) (\<lambda>ys. Inr (NaN # ys))
      else ebind (cadd acc x) (\<lambda>a. ebind (cumsum_from a xs) (\<lambda>ys. Inr (a # ys))))"

definition cumsum :: "cell list \<Rightarrow> error + cell list" where
  "cumsum xs = cumsum_from (Num 0) xs"

text \<open>
  The order pandas sorts values in: numbers by value (\<open>-inf\<close> first, \<open>inf\<close> last),
  text by code point, and, among group keys of both kinds, numbers before text.
  Missing values never take part: \<open>groupby\<close> drops them and \<open>sort_values\<close> puts
  them last.
\<close>

fun cell_key :: "cell \<Rightarrow> nat \<times> rat \<times> string" where
  "cell_key NInf = (0, 0, [])"
| "cell_key (Num a) = (1, a, [])"
| "cell_key PInf = (2, 0, [])"
| "cell_key (Str s) = (3, 0, s)"
| "cell_key NaN = (4, 0, [])"

text \<open>
  \<open>df.groupby(by).agg({c1: 'sum', c2: 'sum'}) ... .reset_index()\<close>: one row per
  distinct value of the column \<open>by\<close>, holding the value and the two sums over the
  group's rows. \<open>groupby\<close> has \<open>sort=True\<close> and \<open>dropna=True\<close> by default: the
  groups come in ascending order of their keys, whatever the order of the rows, and
  rows with a missing key belong to no group. Grouping by one of the summed columns
  (which the program never does) fails in pandas and is an error here.
\<close>

definition groupby_agg_sum :: "frame \<Rightarrow> string \<Rightarrow> string \<Rightarrow> string \<Rightarrow> error + frame" where
  "groupby_agg_sum df by c1 c2 =
     (if by \<notin> set (columns df) then Inl (KeyError by)
      else if c1 \<notin> set (columns df) then Inl (KeyError c1)
      else if c2 \<notin> set (columns df) then Inl (KeyError c2)
      else if by = c1 \<or> by = c2 then Inl ValueError
      else
        let keys = sort_key cell_key
              (remdups (filter (\<lambda>k. k \<noteq> NaN) (map (\<lambda>r. cell_at r by) (rows df))))
        in ebind (sequence (map (\<lambda>k.
               let g = filter (\<lambda>r. cell_at r by = k) (rows df) in
               ebind (col_sum (map (\<lambda>r. cell_at r c1) g)) (\<lambda>s1.
               ebind (col_sum (map (\<lambda>r. cell_at r c2) g)) (\<lambda>s2.
               Inr [(by, k), (c1, s1), (c2, s2)]))) keys))
             (\<lambda>rs. Inr \<lparr>columns = [by, c1, c2], rows = rs\<rparr>))"

text \<open>
  \<open>df.sort_values(by, ascending=...)\<close>: a new frame with the rows in order of the
  column, missing values last. pandas sorts descending by reversing the rows, sorting
  ascending and reversing the result. The order of rows with equal values is the one a
  stable sort gives; pandas' default, numpy's quicksort, promises none, so no theorem
  below about all tables says in which order equal values come out.
  Comparing text with a number raises TypeError.
\<close>

definition sort_values :: "frame \<Rightarrow> string \<Rightarrow> bool \<Rightarrow> error + frame" where
  "sort_values df by ascending =
     (if by \<notin> set (columns df) then Inl (KeyError by)
      else
        let k = (\<lambda>r. cell_at r by);
            vals = filter (\<lambda>r. k r \<noteq> NaN) (rows df);
            nans = filter (\<lambda>r. k r = NaN) (rows df)
        in if list_ex (\<lambda>r. is_Str (k r)) vals \<and> list_ex (\<lambda>r. \<not> is_Str (k r)) vals
           then Inl TypeError
           else Inr \<lparr>columns = columns df,
                     rows = (if ascending then sort_key (\<lambda>r. cell_key (k r)) vals
                             else rev (sort_key (\<lambda>r. cell_key (k r)) (rev vals))) @ nans\<rparr>)"

text \<open>
  \<^verbatim>\<open>
  def generate_summary(df, group_field):
      total_sales = df['Net Sales $'].sum()
      summary = df.groupby(group_field).agg({
          'Net Sales $': 'sum',
          'Gross Margin $': 'sum'
      }).sort_values('Gross Margin $', ascending=False).reset_index()
      summary['% of Sales'] = 100 * summary['Net Sales $'] / total_sales
      summary['Cumulative Sales $'] = summary['Net Sales $'].cumsum()
      summary['Cumulative Sales %'] = 100 * summary['Cumulative Sales $'] / total_sales
      summary['Margin %'] = 100 * summary['Gross Margin $'] / summary['Net Sales $']
      summary['Cumulative Margin $'] = summary['Gross Margin $'].cumsum()
      summary['Cumulative Profit %'] = 100 * summary['Cumulative Margin $'] / summary['Gross Margin $'].sum()
      return summary
  \<close>
\<close>

definition generate_summary :: "frame \<Rightarrow> string \<Rightarrow> error + frame" where
  "generate_summary df group_field =
     ebind (get_col df ''Net Sales $'') (\<lambda>ns.
     ebind (col_sum ns) (\<lambda>total_sales.
     ebind (groupby_agg_sum df group_field ''Net Sales $'' ''Gross Margin $'') (\<lambda>grouped.
     ebind (sort_values grouped ''Gross Margin $'' False) (\<lambda>summary0.
     ebind (get_col summary0 ''Net Sales $'') (\<lambda>ns0.
     ebind (col_pct ns0 total_sales) (\<lambda>pct_sales.
     let summary1 = set_col summary0 ''% of Sales'' pct_sales in
     ebind (get_col summary1 ''Net Sales $'') (\<lambda>ns1.
     ebind (cumsum ns1) (\<lambda>cum_sales.
     let summary2 = set_col summary1 ''Cumulative Sales $'' cum_sales in
     ebind (get_col summary2 ''Cumulative Sales $'') (\<lambda>cs2.
     ebind (col_pct cs2 total_sales) (\<lambda>cum_sales_pct.
     let summary3 = set_col summary2 ''Cumulative Sales %'' cum_sales_pct in
     ebind (get_col summary3 ''Gross Margin $'') (\<lambda>gm3.
     ebind (get_col summary3 ''Net Sales $'') (\<lambda>ns3.
     ebind (col_pct2 gm3 ns3) (\<lambda>margin_pct.
     let summary4 = set_col summary3 ''Margin %'' margin_pct in
     ebind (get_col summary4 ''Gross Margin $'') (\<lambda>gm4.
     ebind (cumsum gm4) (\<lambda>cum_margin.
     let summary5 = set_col summary4 ''Cumulative Margin $'' cum_margin in
     ebind (get_col summary5 ''Cumulative Margin $'') (\<lambda>cm5.
     ebind (get_col summary5 ''Gross Margin $'') (\<lambda>gm5.
     ebind (col_sum gm5) (\<lambda>total_margin.
     ebind (col_pct cm5 total_margin) (\<lambda>cum_profit_pct.
     Inr (set_col summary5 ''Cumulative Profit %'' cum_profit_pct))))))))))))))))))))"

section \<open>The rank selector\<close>

text \<open>\<open>df.head(n)\<close>: the first \<open>n\<close> rows; all but the last \<open>-n\<close> for a negative \<open>n\<close>.\<close>

definition head :: "int \<Rightarrow> frame \<Rightarrow> frame" where
  "head n df =
     \<lparr>columns = columns df,
      rows = (if 0 \<le> n then take (nat n) (rows df)
              else take (length (rows df) - nat (- n)) (rows df))\<rparr>"

text \<open>
  \<^verbatim>\<open>
  def get_top_bottom(summary, field, top_n=20):
      top_20 = summary.sort_values(field, ascending=False).head(top_n)
      bottom_20 = summary.sort_values(field, ascending=True).head(top_n)
      return top_20, bottom_20
  \<close>
  The optional argument is \<open>None\<close> when the caller leaves \<open>top_n\<close> out.
  \<open>sort_values\<close> and \<open>head\<close> return new frames: \<open>summary\<close> itself is only read.
\<close>

definition get_top_bottom :: "frame \<Rightarrow> string \<Rightarrow> int option \<Rightarrow> error + frame \<times> frame" where
  "get_top_bottom summary field top_n_arg =
     (let top_n = (case top_n_arg of None \<Rightarrow> 20 | Some n \<Rightarrow> n) in
      ebind (sort_values summary field False) (\<lambda>sorted_desc.
      let top_20 = head top_n sorted_desc in
      ebind (sort_values summary field True) (\<lambda>sorted_asc.
      let bottom_20 = head top_n sorted_asc in
      Inr (top_20, bottom_20))))"

section \<open>Loading, validation and the run\<close>

text \<open>
  An uploaded file is modelled by what \<open>pd.read_excel\<close> makes of it: the frame, or the
  text of the exception it raises. \<open>st.error\<close>, \<open>st.warning\<close> and \<open>st.info\<close> are
  modelled by the list of messages a function shows.
\<close>

type_synonym upload = "string + frame"

datatype message =
    SalesMissingColumns | SalesReadError string
  | CostMissingColumns | CostReadError string
  | SalesRowsWarning | CostRowsWarning | UploadBothInfo

text \<open>
  \<^verbatim>\<open>
  def load_sales_data(uploaded_file):
      try:
          sales = pd.read_excel(uploaded_file)
          required_cols = ['Customer ID', 'Product ID', 'Net Sales $', 'Salesperson', 'Region']
          if not all(col in sales.columns for col in required_cols):
              st.error(f"Missing required columns in Sales Data: {required_cols}")
              return None
          return sales
      except Exception as e:
          st.error(f"Error reading Sales file: {e}")
          return None
  \<close>
\<close>

definition load_sales_data :: "upload \<Rightarrow> frame option \<times> message list" where
  "load_sales_data uploaded_file =
     (case uploaded_file of
        Inl e \<Rightarrow> (None, [SalesReadError e])
      | Inr sales \<Rightarrow>
          let required_cols =
                [''Customer ID'', ''Product ID'', ''Net Sales $'', ''Salesperson'', ''Region'']
          in if \<not> list_all (\<lambda>col. col \<in> set (columns sales)) required_cols
             then (None, [SalesMissingColumns])
             else (Some sales, []))"

definition load_cost_data :: "upload \<Rightarrow> frame option \<times> message list" where
  "load_cost_data uploaded_file =
     (case uploaded_file of
        Inl e \<Rightarrow> (None, [CostReadError e])
      | Inr cost \<Rightarrow>
          let required_cols = [''Product ID'']
          in if \<not> list_all (\<lambda>col. col \<in> set (columns cost)) required_cols
             then (None, [CostMissingColumns])
             else (Some cost, []))"

text \<open>What the page shows for one dimension: the summary and its three slices.\<close>

record dimension_view =
  summary :: frame
  top_sales :: frame
  top_margin :: frame
  bottom_margin :: frame

definition analyze_dimension :: "frame \<Rightarrow> string \<Rightarrow> error + dimension_view" where
  "analyze_dimension merged_data group_field =
     ebind (generate_summary merged_data group_field) (\<lambda>s.
     ebind (get_top_bottom s ''Net Sales $'' None) (\<lambda>(ts, _).
     ebind (get_top_bottom s ''Margin %'' None) (\<lambda>(tm, bm).
     Inr \<lparr>summary = s, top_sales = ts, top_margin = tm, bottom_margin = bm\<rparr>)))"

text \<open>
  The script's top level. Both files are loaded and validated before anything else;
  the analysis runs only when both loaders return a frame. An exception of the analysis
  is not caught by the script: it ends the run (\<open>Inl\<close>).
\<close>

definition run :: "upload option \<Rightarrow> upload option \<Rightarrow> message list \<times> (error + dimension_view list) option" where
  "run sales_file cost_file =
     (case (sales_file, cost_file) of
        (Some sf, Some cf) \<Rightarrow>
          let (sales_data, m1) = load_sales_data sf;
              (cost_data, m2) = load_cost_data cf
          in (case (sales_data, cost_data) of
                (Some sales, Some cost) \<Rightarrow>
                  (m1 @ m2
                     @ (if length (rows sales) > 10000 then [SalesRowsWarning] else [])
                     @ (if length (rows cost) > 10000 then [CostRowsWarning] else []),
                   Some (ebind (merge_data sales cost) (\<lambda>merged_data.
                     sequence (map (analyze_dimension merged_data)
                       [''Customer ID'', ''Product ID'', ''Salesperson'', ''Region'']))))
              | _ \<Rightarrow> (m1 @ m2, None))
      | _ \<Rightarrow> ([UploadBothInfo], None))"

section \<open>Properties: vocabulary\<close>

subsection \<open>Well-formed inputs\<close>

text \<open>
  An amount is a number or a missing value: the spec's \<open>decimal | absent\<close>.
  \<open>amount\<close> reads it, a missing value as zero.
\<close>

definition is_amount :: "cell \<Rightarrow> bool" where
  "is_amount c = (case c of Num a \<Rightarrow> True | NaN \<Rightarrow> True | _ \<Rightarrow> False)"

definition amount :: "cell \<Rightarrow> rat" where
  "amount c = (case c of Num a \<Rightarrow> a | _ \<Rightarrow> 0)"

text \<open>
  A frame as \<open>pd.read_excel\<close> returns it: column names are not repeated, and every row
  has one cell for each column, in the columns' order.
\<close>

definition valid_frame :: "frame \<Rightarrow> bool" where
  "valid_frame df =
     (distinct (columns df) \<and> list_all (\<lambda>r. map fst r = columns df) (rows df))"

definition col_all :: "(cell \<Rightarrow> bool) \<Rightarrow> frame \<Rightarrow> string \<Rightarrow> bool" where
  "col_all P df c = list_all (\<lambda>r. P (cell_at r c)) (rows df)"

definition cost_fields :: "string list" where
  "cost_fields = [''Standard Total Cost'', ''Material Cost'', ''Labor Cost'',
     ''Overhead Cost'', ''Service Cost'']"

text \<open>No column of the frame holds both text and a missing cell.\<close>

definition no_blank_text :: "frame \<Rightarrow> bool" where
  "no_blank_text df =
     list_all (\<lambda>c. \<not> (list_ex (\<lambda>r. is_Str (cell_at r c)) (rows df) \<and>
                        list_ex (\<lambda>r. cell_at r c = NaN) (rows df)))
       (columns df)"

text \<open>
  The inputs of the merge engine that follow the spec's data model: both frames valid;
  the sales set has \<open>Product ID\<close> and \<open>Net Sales $\<close>; the cost set has \<open>Product ID\<close>
  and the five cost columns; the two sets share no other column name; product ids are
  text; net sales and costs are amounts; no column of the sales set holds both text and
  a missing cell, and the cost set holds no text but its product ids (a transaction
  without a cost record gets missing cells in every cost column).
\<close>

definition merge_inputs_ok :: "frame \<Rightarrow> frame \<Rightarrow> bool" where
  "merge_inputs_ok sales cost =
     (valid_frame sales \<and> valid_frame cost \<and>
      ''Product ID'' \<in> set (columns sales) \<and> ''Net Sales $'' \<in> set (columns sales) \<and>
      ''Product ID'' \<in> set (columns cost) \<and>
      list_all (\<lambda>c. c \<in> set (columns cost)) cost_fields \<and>
      list_all (\<lambda>c. c = ''Product ID'' \<or> c \<notin> set (columns cost)) (columns sales) \<and>
      col_all is_Str sales ''Product ID'' \<and> col_all is_Str cost ''Product ID'' \<and>
      col_all is_amount sales ''Net Sales $'' \<and>
      list_all (col_all is_amount cost) cost_fields \<and>
      no_blank_text sales \<and>
      list_all (\<lambda>c. c = ''Product ID'' \<or> col_all (\<lambda>x. \<not> is_Str x) cost c) (columns cost))"



subsection \<open>The cost resolver, in the spec's words\<close>



subsection \<open>The merge, row by row\<close>

text \<open>
  The row-wise reading of \<open>merge_data\<close> that the proofs relate the column-wise
  program to: the cost cells one cost record (or none) adds to a transaction row, the
  cost records a transaction row is paired with, and what the three statements after
  the join make of a joined row.
\<close>

definition cost_cells :: "frame \<Rightarrow> row option \<Rightarrow> row" where
  "cost_cells cost k =
     map (\<lambda>c. (c, case k of None \<Rightarrow> NaN | Some r \<Rightarrow> cell_at r c))
       (filter (\<lambda>c. c \<noteq> ''Product ID'') (columns cost))"

definition matches :: "frame \<Rightarrow> row \<Rightarrow> row option list" where
  "matches cost l =
     (let ms = filter (\<lambda>k. cell_at k ''Product ID'' = cell_at l ''Product ID'') (rows cost)
      in if ms = [] then [None] else map Some ms)"

definition fill0 :: "row \<Rightarrow> row" where
  "fill0 r = map (\<lambda>(c, x). (c, if x = NaN then Num 0 else x)) r"

definition unit_cost_of :: "row \<Rightarrow> rat" where
  "unit_cost_of r =
     (if 0 < amount (cell_at r ''Standard Total Cost'') then amount (cell_at r ''Standard Total Cost'')
      else amount (cell_at r ''Material Cost'') + amount (cell_at r ''Labor Cost'')
           + amount (cell_at r ''Overhead Cost'') + amount (cell_at r ''Service Cost''))"

definition enrich :: "row \<Rightarrow> row" where
  "enrich r =
     AList.update ''Gross Margin $'' (Num (amount (cell_at r ''Net Sales $'') - unit_cost_of r))
       (AList.update ''Unit Cost'' (Num (unit_cost_of r)) (fill0 r))"

definition amounts_present :: "row \<Rightarrow> bool" where
  "amounts_present r =
     list_all (\<lambda>c. c \<in> fst ` set r \<and> is_amount (cell_at r c))
       [''Net Sales $'', ''Standard Total Cost'', ''Material Cost'', ''Labor Cost'',
        ''Overhead Cost'', ''Service Cost'']"

subsection \<open>Concrete inputs\<close>

text \<open>
  The script's own sample tables (\<open>sample_sales\<close> and \<open>sample_cost\<close>, shown on the
  page as the expected formats), and small variations of them.
\<close>

definition sales_columns :: "string list" where
  "sales_columns = [''Customer ID'', ''Product ID'', ''Net Sales $'', ''Salesperson'', ''Region'']"

definition sale :: "string \<Rightarrow> string \<Rightarrow> cell \<Rightarrow> string \<Rightarrow> string \<Rightarrow> row" where
  "sale c p n s r =
     [(''Customer ID'', Str c), (''Product ID'', Str p), (''Net Sales $'', n),
      (''Salesperson'', Str s), (''Region'', Str r)]"

definition cost_row :: "string \<Rightarrow> cell \<Rightarrow> cell \<Rightarrow> cell \<Rightarrow> cell \<Rightarrow> cell \<Rightarrow> row" where
  "cost_row p t m l ov sv =
     [(''Product ID'', Str p), (''Standard Total Cost'', t), (''Material Cost'', m),
      (''Labor Cost'', l), (''Overhead Cost'', ov), (''Service Cost'', sv)]"

definition sample_sales :: frame where
  "sample_sales =
     \<lparr>columns = sales_columns,
      rows = [sale ''C001'' ''P101'' (Num 12000) ''Sally'' ''North'',
              sale ''C002'' ''P102'' (Num 9500) ''Jim'' ''West'']\<rparr>"

definition sample_cost :: frame where
  "sample_cost =
     \<lparr>columns = ''Product ID'' # cost_fields,
      rows = [cost_row ''P101'' (Num 7200) NaN NaN NaN NaN,
              cost_row ''P102'' NaN (Num 3000) (Num 2000) (Num 1500) (Num 1000)]\<rparr>"

text \<open>One transaction (the spec's end-to-end example).\<close>

definition one_sale :: frame where
  "one_sale =
     \<lparr>columns = sales_columns,
      rows = [sale ''C001'' ''P101'' (Num 12000) ''Sally'' ''North'']\<rparr>"

text \<open>The same transaction with an empty Net Sales $ cell.\<close>

definition blank_sale :: frame where
  "blank_sale =
     \<lparr>columns = sales_columns,
      rows = [sale ''C001'' ''P101'' NaN ''Sally'' ''North'']\<rparr>"



text \<open>
  The two cost layouts the page asks for (``Product ID, plus either Standard Total Cost
  or Material Cost, Labor Cost, Overhead Cost, Service Cost''), each with its own
  columns only.
\<close>

definition total_only_cost :: frame where
  "total_only_cost =
     \<lparr>columns = [''Product ID'', ''Standard Total Cost''],
      rows = [[(''Product ID'', Str ''P101''), (''Standard Total Cost'', Num 7200)]]\<rparr>"

definition components_only_cost :: frame where
  "components_only_cost =
     \<lparr>columns = [''Product ID'', ''Material Cost'', ''Labor Cost'', ''Overhead Cost'',
                 ''Service Cost''],
      rows = [[(''Product ID'', Str ''P101''), (''Material Cost'', Num 3000),
               (''Labor Cost'', Num 2000), (''Overhead Cost'', Num 1500),
               (''Service Cost'', Num 1000)]]\<rparr>"

text \<open>A sales set without the \<open>Region\<close> column, and a cost set without \<open>Product ID\<close>.\<close>

definition no_region_sales :: frame where
  "no_region_sales =
     \<lparr>columns = [''Customer ID'', ''Product ID'', ''Net Sales $'', ''Salesperson''],
      rows = [[(''Customer ID'', Str ''C001''), (''Product ID'', Str ''P101''),
               (''Net Sales $'', Num 12000), (''Salesperson'', Str ''Sally'')]]\<rparr>"

definition no_product_cost :: frame where
  "no_product_cost =
     \<lparr>columns = [''Standard Total Cost''],
      rows = [[(''Standard Total Cost'', Num 7200)]]\<rparr>"

subsection \<open>Summaries\<close>

text \<open>A finite number.\<close>

definition is_Num :: "cell \<Rightarrow> bool" where
  "is_Num c = (case c of Num a \<Rightarrow> True | _ \<Rightarrow> False)"

text \<open>
  What numpy makes of \<open>a / b\<close> for two finite numbers: no exception for \<open>b = 0\<close>, but
  \<open>nan\<close> for \<open>0 / 0\<close> and an infinity with the sign of \<open>a\<close> otherwise.
\<close>

definition float_div :: "rat \<Rightarrow> rat \<Rightarrow> cell" where
  "float_div a b =
     (if b = 0 then (if a = 0 then NaN else if 0 < a then PInf else NInf) else Num (a / b))"

text \<open>The running sums of a list of numbers, from a start value.\<close>

fun running_sum :: "rat \<Rightarrow> rat list \<Rightarrow> rat list" where
  "running_sum a [] = []"
| "running_sum a (x # xs) = (a + x) # running_sum (a + x) xs"

text \<open>
  The tables \<open>generate_summary\<close> is given by the program, as far as it reads them:
  the group column and the two summed columns are there, the group column is not one of
  the columns the summary computes, net sales and gross margins are finite numbers, and
  no group key is missing (\<open>merge_data\<close> has filled every missing cell).
\<close>

definition summary_input_ok :: "frame \<Rightarrow> string \<Rightarrow> bool" where
  "summary_input_ok df g =
     (g \<in> set (columns df) \<and> ''Net Sales $'' \<in> set (columns df) \<and>
      ''Gross Margin $'' \<in> set (columns df) \<and>
      g \<notin> set [''Net Sales $'', ''Gross Margin $'', ''% of Sales'', ''Cumulative Sales $'',
        ''Cumulative Sales %'', ''Margin %'', ''Cumulative Margin $'', ''Cumulative Profit %''] \<and>
      col_all is_Num df ''Net Sales $'' \<and> col_all is_Num df ''Gross Margin $'' \<and>
      col_all (\<lambda>c. c \<noteq> NaN) df g)"

text \<open>
  The groups of a table, as \<open>groupby\<close> makes them: the keys in ascending order, a
  group's total of a column, the row of a group in the grouped table, and the grouped
  rows in the order of the summary (descending gross margin).
\<close>

definition group_keys :: "frame \<Rightarrow> string \<Rightarrow> cell list" where
  "group_keys df g =
     sort_key cell_key (remdups (filter (\<lambda>k. k \<noteq> NaN) (map (\<lambda>r. cell_at r g) (rows df))))"

definition group_total :: "frame \<Rightarrow> string \<Rightarrow> string \<Rightarrow> cell \<Rightarrow> rat" where
  "group_total df g c k =
     sum_list (map (\<lambda>r. amount (cell_at r c)) (filter (\<lambda>r. cell_at r g = k) (rows df)))"

definition group_row :: "frame \<Rightarrow> string \<Rightarrow> cell \<Rightarrow> row" where
  "group_row df g k =
     [(g, k), (''Net Sales $'', Num (group_total df g ''Net Sales $'' k)),
      (''Gross Margin $'', Num (group_total df g ''Gross Margin $'' k))]"

definition ranked_groups :: "frame \<Rightarrow> string \<Rightarrow> row list" where
  "ranked_groups df g =
     rev (sort_key (\<lambda>r. cell_key (cell_at r ''Gross Margin $''))
       (rev (map (group_row df g) (group_keys df g))))"

text \<open>
  The total net sales of a table, and the net sales, gross margins and keys of its groups
  in the order of the summary.
\<close>

definition total_sales :: "frame \<Rightarrow> rat" where
  "total_sales df = sum_list (map (\<lambda>r. amount (cell_at r ''Net Sales $'')) (rows df))"

definition ranked_sales :: "frame \<Rightarrow> string \<Rightarrow> rat list" where
  "ranked_sales df g = map (\<lambda>r. amount (cell_at r ''Net Sales $'')) (ranked_groups df g)"

definition ranked_margins :: "frame \<Rightarrow> string \<Rightarrow> rat list" where
  "ranked_margins df g = map (\<lambda>r. amount (cell_at r ''Gross Margin $'')) (ranked_groups df g)"

definition ranked_keys :: "frame \<Rightarrow> string \<Rightarrow> cell list" where
  "ranked_keys df g = map (\<lambda>r. cell_at r g) (ranked_groups df g)"

subsection \<open>Concrete merged tables and summaries\<close>

text \<open>
  The layout of a merged table and of a summary, and the merged tables \<open>merge_data\<close>
  makes of the sample sets and of three variations: a product sold below its cost
  (\<open>loss_sales\<close>), the transaction with empty net sales (\<open>blank_sale\<close>), and two
  customers with equal gross margins, the later key first (\<open>tie_sales\<close>).
\<close>

definition merged_columns :: "string list" where
  "merged_columns = sales_columns @ cost_fields @ [''Unit Cost'', ''Gross Margin $'']"

definition merged_row :: "row \<Rightarrow> rat \<Rightarrow> rat \<Rightarrow> rat \<Rightarrow> rat \<Rightarrow> rat \<Rightarrow> rat \<Rightarrow> rat \<Rightarrow> row" where
  "merged_row l t m lb ov sv uc gm =
     l @ [(''Standard Total Cost'', Num t), (''Material Cost'', Num m), (''Labor Cost'', Num lb),
          (''Overhead Cost'', Num ov), (''Service Cost'', Num sv), (''Unit Cost'', Num uc),
          (''Gross Margin $'', Num gm)]"

definition summary_columns :: "string \<Rightarrow> string list" where
  "summary_columns g =
     [g, ''Net Sales $'', ''Gross Margin $'', ''% of Sales'', ''Cumulative Sales $'',
      ''Cumulative Sales %'', ''Margin %'', ''Cumulative Margin $'', ''Cumulative Profit %'']"

definition summary_row :: "string \<Rightarrow> cell \<Rightarrow> cell \<Rightarrow> cell \<Rightarrow> cell \<Rightarrow> cell \<Rightarrow> cell \<Rightarrow> cell \<Rightarrow> cell \<Rightarrow> cell \<Rightarrow> row" where
  "summary_row g k ns gm ps cs csp mp cm cpp =
     [(g, k), (''Net Sales $'', ns), (''Gross Margin $'', gm), (''% of Sales'', ps),
      (''Cumulative Sales $'', cs), (''Cumulative Sales %'', csp), (''Margin %'', mp),
      (''Cumulative Margin $'', cm), (''Cumulative Profit %'', cpp)]"

definition sample_merged :: frame where
  "sample_merged =
     \<lparr>columns = merged_columns,
      rows = [merged_row (sale ''C001'' ''P101'' (Num 12000) ''Sally'' ''North'') 7200 0 0 0 0 7200 4800,
              merged_row (sale ''C002'' ''P102'' (Num 9500) ''Jim'' ''West'') 0 3000 2000 1500 1000 7500 2000]\<rparr>"

definition loss_sales :: frame where
  "loss_sales =
     \<lparr>columns = sales_columns,
      rows = [sale ''C001'' ''P101'' (Num 12000) ''Sally'' ''North'',
              sale ''C002'' ''P102'' (Num 5000) ''Jim'' ''West'']\<rparr>"

definition loss_merged :: frame where
  "loss_merged =
     \<lparr>columns = merged_columns,
      rows = [merged_row (sale ''C001'' ''P101'' (Num 12000) ''Sally'' ''North'') 7200 0 0 0 0 7200 4800,
              merged_row (sale ''C002'' ''P102'' (Num 5000) ''Jim'' ''West'') 0 3000 2000 1500 1000 7500 (- 2500)]\<rparr>"

definition blank_merged :: frame where
  "blank_merged =
     \<lparr>columns = merged_columns,
      rows = [merged_row (sale ''C001'' ''P101'' (Num 0) ''Sally'' ''North'') 7200 0 0 0 0 7200 (- 7200)]\<rparr>"

definition tie_sales :: frame where
  "tie_sales =
     \<lparr>columns = sales_columns,
      rows = [sale ''C002'' ''P101'' (Num 12000) ''Jim'' ''West'',
              sale ''C001'' ''P101'' (Num 12000) ''Sally'' ''North'']\<rparr>"

definition tie_merged :: frame where
  "tie_merged =
     \<lparr>columns = merged_columns,
      rows = [merged_row (sale ''C002'' ''P101'' (Num 12000) ''Jim'' ''West'') 7200 0 0 0 0 7200 4800,
              merged_row (sale ''C001'' ''P101'' (Num 12000) ''Sally'' ''North'') 7200 0 0 0 0 7200 4800]\<rparr>"

text \<open>The summaries by customer that \<open>generate_summary\<close> makes of the four merged tables.\<close>

definition sample_summary :: frame where
  "sample_summary =
     \<lparr>columns = summary_columns ''Customer ID'',
      rows = [summary_row ''Customer ID'' (Str ''C001'') (Num 12000) (Num 4800)
                (Num (2400 / 43)) (Num 12000) (Num (2400 / 43)) (Num 40)
                (Num 4800) (Num (1200 / 17)),
              summary_row ''Customer ID'' (Str ''C002'') (Num 9500) (Num 2000)
                (Num (1900 / 43)) (Num 21500) (Num 100) (Num (400 / 19))
                (Num 6800) (Num 100)]\<rparr>"

definition loss_summary :: frame where
  "loss_summary =
     \<lparr>columns = summary_columns ''Customer ID'',
      rows = [summary_row ''Customer ID'' (Str ''C001'') (Num 12000) (Num 4800)
                (Num (1200 / 17)) (Num 12000) (Num (1200 / 17)) (Num 40)
                (Num 4800) (Num (4800 / 23)),
              summary_row ''Customer ID'' (Str ''C002'') (Num 5000) (Num (- 2500))
                (Num (500 / 17)) (Num 17000) (Num 100) (Num (- 50))
                (Num 2300) (Num 100)]\<rparr>"

definition blank_summary :: frame where
  "blank_summary =
     \<lparr>columns = summary_columns ''Customer ID'',
      rows = [summary_row ''Customer ID'' (Str ''C001'') (Num 0) (Num (- 7200))
                NaN (Num 0) NaN NInf (Num (- 7200)) (Num 100)]\<rparr>"

definition tie_summary :: frame where
  "tie_summary =
     \<lparr>columns = summary_columns ''Customer ID'',
      rows = [summary_row ''Customer ID'' (Str ''C001'') (Num 12000) (Num 4800)
                (Num 50) (Num 12000) (Num 50) (Num 40) (Num 4800) (Num 50),
              summary_row ''Customer ID'' (Str ''C002'') (Num 12000) (Num 4800)
                (Num 50) (Num 24000) (Num 100) (Num 40) (Num 9600) (Num 100)]\<rparr>"

subsection \<open>Ranked tables\<close>

text \<open>
  The rows of a table are ranked by a column, ascending or descending, when the rows
  with a value come first, in the order of their values, and the rows with a missing
  value come last.
\<close>

definition ranked_by :: "bool \<Rightarrow> string \<Rightarrow> row list \<Rightarrow> bool" where
  "ranked_by ascending c rs =
     (let present = filter (\<lambda>r. cell_at r c \<noteq> NaN) rs;
          missing = filter (\<lambda>r. cell_at r c = NaN) rs
      in rs = present @ missing \<and>
         sorted (map (\<lambda>r. cell_key (cell_at r c)) (if ascending then present else rev present)))"


subsection \<open>Amounts the machine adds exactly\<close>

text \<open>
  A whole number is a cell holding an integer. The net sales and the gross margins of a
  table are summed exactly by the machine, in any order and as int64 as well as
  float64, when they are whole numbers and 100 times the sum of their absolute values
  stays below \<open>2 ^ 53\<close>: then no sum or product of \<open>generate_summary\<close> wraps around
  or is rounded, and only its quotients are rounded.
\<close>

definition is_whole :: "cell \<Rightarrow> bool" where
  "is_whole c = (case c of Num a \<Rightarrow> a = of_int \<lfloor>a\<rfloor> | _ \<Rightarrow> False)"

definition exact_sums :: "frame \<Rightarrow> bool" where
  "exact_sums df =
     list_all (\<lambda>c. col_all is_whole df c \<and>
                   100 * sum_list (map (\<lambda>r. \<bar>amount (cell_at r c)\<bar>) (rows df)) < 2 ^ 53)
       [''Net Sales $'', ''Gross Margin $'']"

text \<open>The table \<open>tie_merged\<close> with its rows in the opposite order.\<close>

definition tie_merged_reordered :: frame where
  "tie_merged_reordered = \<lparr>columns = columns tie_merged, rows = rev (rows tie_merged)\<rparr>"
section \<open>Proofs: the error monad, columns and rows\<close>

lemma ebind_Inr [simp]: "ebind (Inr a) f = f a"
  by (simp add: ebind_def)

lemma ebind_Inl [simp]: "ebind (Inl e) f = Inl e"
  by (simp add: ebind_def)

lemma ebind_eq_Inr: "ebind m f = Inr y \<longleftrightarrow> (\<exists>a. m = Inr a \<and> f a = Inr y)"
  by (cases m) simp_all

lemma sequence_map_Inr [simp]: "sequence (map Inr ys) = Inr ys"
  by (induction ys) simp_all

lemma sequence_eq_Inr: "sequence ms = Inr ys \<longleftrightarrow> ms = map Inr ys"
proof (induction ms arbitrary: ys rule: sequence.induct)
  case 1
  then show ?case by auto
next
  case (2 e ms)
  then show ?case by auto
next
  case (3 a ms)
  then show ?case by (cases ys) (auto split: sum.splits)
qed

lemma sequence_map_ok:
  assumes "\<And>x. x \<in> set xs \<Longrightarrow> f x = Inr (g x)"
  shows "sequence (map f xs) = Inr (map g xs)"
proof -
  have "map f xs = map Inr (map g xs)"
    using assms by simp
  then show ?thesis
    by (simp only: sequence_map_Inr)
qed

lemma map2_same: "map2 h (map f xs) (map g xs) = map (\<lambda>x. h (f x) (g x)) xs"
  by (induction xs) simp_all

lemma map2_same_left: "map2 h xs (map g xs) = map (\<lambda>x. h x (g x)) xs"
  by (induction xs) simp_all

lemma np_where_same:
  "np_where (map c xs) (map f xs) (map g xs) = map (\<lambda>x. if c x then f x else g x) xs"
  unfolding np_where_def by (induction xs) simp_all

lemma cell_at_update [simp]:
  "cell_at (AList.update c v r) c' = (if c' = c then v else cell_at r c')"
  by (simp add: cell_at_def update_conv')

lemma cell_at_append_left:
  "c \<in> fst ` set l \<Longrightarrow> cell_at (l @ e) c = cell_at l c"
  by (auto simp: cell_at_def map_add_def split: option.splits dest: map_of_SomeD weak_map_of_SomeI)

lemma cell_at_append_right:
  assumes "c \<notin> fst ` set l"
  shows "cell_at (l @ e) c = cell_at e c"
proof -
  have "map_of l c = None"
    using assms by (simp add: map_of_eq_None_iff)
  then show ?thesis
    by (simp add: cell_at_def map_add_def)
qed

lemma cell_at_tabulate:
  "cell_at (map (\<lambda>c. (c, f c)) cs) c = (if c \<in> set cs then f c else NaN)"
  by (induction cs) (auto simp: cell_at_def)

lemma cell_at_fill:
  "cell_at (map (\<lambda>(c, x). (c, if x = NaN then v else x)) r) c =
     (if c \<in> fst ` set r \<and> cell_at r c = NaN then v else cell_at r c)"
  by (induction r) (auto simp: cell_at_def)

subsection \<open>The left join\<close>


lemma merge_closed:
  assumes k1: "key \<in> set (columns left)" and k2: "key \<in> set (columns right)"
    and d1: "distinct (columns left)" and d2: "distinct (columns right)"
    and clash: "\<And>c. c \<in> set (columns left) \<Longrightarrow> c = key \<or> c \<notin> set (columns right)"
    and wf: "\<And>l. l \<in> set (rows left) \<Longrightarrow> map fst l = columns left"
  shows "merge left right key =
    Inr \<lparr>columns = columns left @ filter (\<lambda>c. c \<noteq> key) (columns right),
         rows = concat (map (\<lambda>l.
           let ms = filter (\<lambda>r. cell_at r key = cell_at l key) (rows right)
           in if ms = [] then [l @ map (\<lambda>c. (c, NaN)) (filter (\<lambda>c. c \<noteq> key) (columns right))]
              else map (\<lambda>r. l @ map (\<lambda>c. (c, cell_at r c)) (filter (\<lambda>c. c \<noteq> key) (columns right))) ms)
           (rows left))\<rparr>"
proof -
  let ?rcols = "filter (\<lambda>c. c \<noteq> key) (columns right)"
  let ?lname = "\<lambda>c. if c \<in> set ?rcols then c @ ''_x'' else c"
  let ?rname = "\<lambda>c. if c \<in> set (columns left) then c @ ''_y'' else c"
  have ln: "?lname c = c" if "c \<in> set (columns left)" for c
    using clash [OF that] by auto
  have rn: "?rname c = c" if "c \<in> set ?rcols" for c
    using that clash [of c] by auto
  have m1: "map ?lname (columns left) = columns left"
    using ln by (simp add: map_idI)
  have m2: "map ?rname ?rcols = ?rcols"
    by (rule map_idI) (use rn in blast)
  have m3: "map (\<lambda>c. (?rname c, g c)) ?rcols = map (\<lambda>c. (c, g c)) ?rcols" for g :: "string \<Rightarrow> cell"
    by (rule map_cong [OF refl]) (use rn in auto)
  have dist: "distinct (columns left @ ?rcols)"
    using d1 d2 clash by auto
  have lrow: "map (\<lambda>(c, v). (?lname c, v)) l = l" if "l \<in> set (rows left)" for l
  proof -
    have "(case p of (c, v) \<Rightarrow> (?lname c, v)) = p" if "p \<in> set l" for p
    proof -
      have "fst p \<in> set (map fst l)"
        using that by simp
      then have "fst p \<in> set (columns left)"
        using wf [OF \<open>l \<in> set (rows left)\<close>] by simp
      from clash [OF this] show ?thesis
        by (cases p) auto
    qed
    then show ?thesis by (simp add: map_idI)
  qed
  show ?thesis
    unfolding merge_def Let_def m1 m2 m3
    apply (simp only: k1 k2 dist not_True_eq_False simp_thms if_False)
    apply (rule arg_cong [where f = Inr])
    apply (rule arg_cong [where f = "\<lambda>rs. \<lparr>columns = cs, rows = rs\<rparr>" for cs])
    apply (rule arg_cong [where f = concat])
    apply (rule map_cong [OF refl])
    apply (simp only: lrow)
    done
qed


subsection \<open>The merge engine, row by row\<close>

lemma is_amount_fill:
  assumes "c \<in> fst ` set r" "is_amount (cell_at r c)"
  shows "cell_at (fill0 r) c = Num (amount (cell_at r c))"
  using assms unfolding fill0_def cell_at_fill
  by (cases "cell_at r c") (simp_all add: is_amount_def amount_def)

lemma col_gt0_Num: "col_gt0 (map (\<lambda>x. Num (f x)) xs) = Inr (map (\<lambda>x. 0 < f x) xs)"
  unfolding col_gt0_def map_map by (rule sequence_map_ok) simp

lemma col_add_Num:
  "col_add (map (\<lambda>x. Num (f x)) xs) (map (\<lambda>x. Num (g x)) xs) = Inr (map (\<lambda>x. Num (f x + g x)) xs)"
  unfolding col_add_def map2_same by (rule sequence_map_ok) simp

lemma col_sub_Num:
  "col_sub (map (\<lambda>x. Num (f x)) xs) (map (\<lambda>x. Num (g x)) xs) = Inr (map (\<lambda>x. Num (f x - g x)) xs)"
  unfolding col_sub_def map2_same by (rule sequence_map_ok) simp

lemma get_col_map:
  assumes "c \<in> set (columns df)" "rows df = map h rs"
  shows "get_col df c = Inr (map (\<lambda>r. cell_at (h r) c) rs)"
  using assms by (simp add: get_col_def comp_def)

lemma rows_set_col_map:
  assumes "rows df = map h rs"
  shows "rows (set_col df c (map v rs)) = map (\<lambda>r. AList.update c (v r) (h r)) rs"
  using assms by (simp add: set_col_def map2_same)

lemma columns_set_col:
  "set (columns (set_col df c vs)) = insert c (set (columns df))"
  by (auto simp: set_col_def)

lemma merge_data_rows:
  assumes j: "merge sales cost ''Product ID'' = Inr j"
    and cols: "{''Net Sales $'', ''Standard Total Cost'', ''Material Cost'', ''Labor Cost'',
        ''Overhead Cost'', ''Service Cost''} \<subseteq> set (columns j)"
    and ok: "\<And>r. r \<in> set (rows j) \<Longrightarrow> amounts_present r"
    and fillable: "\<And>c. c \<in> set (columns j) \<Longrightarrow>
      \<not> (text_column j c \<and> list_ex (\<lambda>r. cell_at r c = NaN) (rows j))"
  shows "\<exists>m. merge_data sales cost = Inr m \<and> rows m = map enrich (rows j) \<and>
    set (columns m) = set (columns j) \<union> {''Unit Cost'', ''Gross Margin $''}"
proof -
  let ?rs = "rows j"
  define merged where "merged = \<lparr>columns = columns j,
      rows = map (map (\<lambda>(c, x). (c, if x = NaN then Num 0 else x))) (rows j)\<rparr>"
  let ?a = "\<lambda>c r. amount (cell_at r c)"
  have "\<not> list_ex (\<lambda>c. text_column j c \<and> list_ex (\<lambda>r. cell_at r c = NaN) (rows j)) (columns j)"
    using fillable unfolding list_ex_iff [of _ "columns j"] by blast
  then have fl: "fillna (Num 0) j = Inr merged"
    by (simp add: fillna_def merged_def)
  have rm: "rows merged = map fill0 ?rs"
    by (simp add: fill0_def merged_def)
  have cm: "columns merged = columns j"
    by (simp add: merged_def)
  have g: "get_col merged c = Inr (map (\<lambda>r. Num (?a c r)) ?rs)"
    if "c \<in> {''Net Sales $'', ''Standard Total Cost'', ''Material Cost'', ''Labor Cost'',
        ''Overhead Cost'', ''Service Cost''}" for c
  proof -
    have "c \<in> set (columns merged)"
      using that cols cm by auto
    then have "get_col merged c = Inr (map (\<lambda>r. cell_at (fill0 r) c) ?rs)"
      using rm by (rule get_col_map)
    moreover have "map (\<lambda>r. cell_at (fill0 r) c) ?rs = map (\<lambda>r. Num (?a c r)) ?rs"
    proof (rule map_cong [OF refl])
      fix r assume "r \<in> set ?rs"
      from ok [OF this] that have "c \<in> fst ` set r \<and> is_amount (cell_at r c)"
        unfolding amounts_present_def by auto
      then show "cell_at (fill0 r) c = Num (?a c r)"
        by (simp add: is_amount_fill)
    qed
    ultimately show ?thesis by simp
  qed
  let ?uc = "\<lambda>r. if 0 < ?a ''Standard Total Cost'' r then Num (?a ''Standard Total Cost'' r)
      else Num (?a ''Material Cost'' r + ?a ''Labor Cost'' r + ?a ''Overhead Cost'' r + ?a ''Service Cost'' r)"
  let ?merged1 = "set_col merged ''Unit Cost'' (map ?uc ?rs)"
  have uc: "?uc r = Num (unit_cost_of r)" for r
    by (simp add: unit_cost_of_def)
  have rm1: "rows ?merged1 = map (\<lambda>r. AList.update ''Unit Cost'' (?uc r) (fill0 r)) ?rs"
    using rm by (rule rows_set_col_map)
  have ns1: "get_col ?merged1 ''Net Sales $'' = Inr (map (\<lambda>r. Num (?a ''Net Sales $'' r)) ?rs)"
  proof -
    have "''Net Sales $'' \<in> set (columns ?merged1)"
      using cols cm by (simp add: columns_set_col)
    then have "get_col ?merged1 ''Net Sales $'' =
        Inr (map (\<lambda>r. cell_at (AList.update ''Unit Cost'' (?uc r) (fill0 r)) ''Net Sales $'') ?rs)"
      using rm1 by (rule get_col_map)
    also have "\<dots> = get_col merged ''Net Sales $''"
      using cols cm rm by (simp add: get_col_def comp_def)
    finally show ?thesis
      by (simp add: g)
  qed
  have uc1: "get_col ?merged1 ''Unit Cost'' = Inr (map (\<lambda>r. Num (unit_cost_of r)) ?rs)"
  proof -
    have "''Unit Cost'' \<in> set (columns ?merged1)"
      by (simp add: columns_set_col)
    then have "get_col ?merged1 ''Unit Cost'' =
        Inr (map (\<lambda>r. cell_at (AList.update ''Unit Cost'' (?uc r) (fill0 r)) ''Unit Cost'') ?rs)"
      using rm1 by (rule get_col_map)
    then show ?thesis
      by (simp add: unit_cost_of_def)
  qed
  let ?gm = "\<lambda>r. Num (?a ''Net Sales $'' r - unit_cost_of r)"
  have e1: "merge_data sales cost = Inr (set_col ?merged1 ''Gross Margin $'' (map ?gm ?rs))"
    unfolding merge_data_def j ebind_Inr fl Let_def
    by (simp only: g insertI1 insertI2 ebind_Inr col_gt0_Num col_add_Num np_where_same if_distrib
        ns1 uc1 col_sub_Num)
  have e2: "rows (set_col ?merged1 ''Gross Margin $'' (map ?gm ?rs)) =
      map (\<lambda>r. AList.update ''Gross Margin $'' (?gm r) (AList.update ''Unit Cost'' (?uc r) (fill0 r))) ?rs"
    using rm1 by (rule rows_set_col_map)
  have e3: "(\<lambda>r. AList.update ''Gross Margin $'' (?gm r) (AList.update ''Unit Cost'' (?uc r) (fill0 r))) = enrich"
    unfolding enrich_def uc ..
  have e4: "set (columns (set_col ?merged1 ''Gross Margin $'' (map ?gm ?rs))) =
      set (columns j) \<union> {''Unit Cost'', ''Gross Margin $''}"
    unfolding columns_set_col cm by auto
  show ?thesis
    using e1 e2 e4 unfolding e3 by (intro exI conjI)
qed


lemma merge_inputs_okD:
  assumes "merge_inputs_ok sales cost"
  shows "distinct (columns sales)" "distinct (columns cost)"
    "\<And>l. l \<in> set (rows sales) \<Longrightarrow> map fst l = columns sales"
    "\<And>k. k \<in> set (rows cost) \<Longrightarrow> map fst k = columns cost"
    "''Product ID'' \<in> set (columns sales)" "''Net Sales $'' \<in> set (columns sales)"
    "''Product ID'' \<in> set (columns cost)"
    "set cost_fields \<subseteq> set (columns cost)"
    "\<And>c. c \<in> set (columns sales) \<Longrightarrow> c = ''Product ID'' \<or> c \<notin> set (columns cost)"
    "\<And>l. l \<in> set (rows sales) \<Longrightarrow> is_amount (cell_at l ''Net Sales $'')"
    "\<And>k c. k \<in> set (rows cost) \<Longrightarrow> c \<in> set cost_fields \<Longrightarrow> is_amount (cell_at k c)"
    "\<And>c l l'. c \<in> set (columns sales) \<Longrightarrow> l \<in> set (rows sales) \<Longrightarrow>
       is_Str (cell_at l c) \<Longrightarrow> l' \<in> set (rows sales) \<Longrightarrow> cell_at l' c \<noteq> NaN"
    "\<And>c k. c \<in> set (columns cost) \<Longrightarrow> c \<noteq> ''Product ID'' \<Longrightarrow> k \<in> set (rows cost) \<Longrightarrow>
       \<not> is_Str (cell_at k c)"
proof -
  have v: "valid_frame sales" "valid_frame cost"
    and a: "list_all (\<lambda>c. c \<in> set (columns cost)) cost_fields"
      "list_all (\<lambda>c. c = ''Product ID'' \<or> c \<notin> set (columns cost)) (columns sales)"
      "col_all is_amount sales ''Net Sales $''" "list_all (col_all is_amount cost) cost_fields"
    and nb: "no_blank_text sales"
    and tf: "list_all (\<lambda>c. c = ''Product ID'' \<or> col_all (\<lambda>x. \<not> is_Str x) cost c) (columns cost)"
    using assms by (simp_all add: merge_inputs_ok_def)
  show "distinct (columns sales)" "distinct (columns cost)"
    using v by (simp_all add: valid_frame_def)
  show "map fst l = columns sales" if "l \<in> set (rows sales)" for l
    using v(1) that by (simp add: valid_frame_def list_all_iff)
  show "map fst k = columns cost" if "k \<in> set (rows cost)" for k
    using v(2) that by (simp add: valid_frame_def list_all_iff)
  show "''Product ID'' \<in> set (columns sales)" "''Net Sales $'' \<in> set (columns sales)"
    "''Product ID'' \<in> set (columns cost)"
    using assms by (simp_all add: merge_inputs_ok_def)
  show "set cost_fields \<subseteq> set (columns cost)"
    using a(1) by (auto simp: list_all_iff)
  show "c = ''Product ID'' \<or> c \<notin> set (columns cost)" if "c \<in> set (columns sales)" for c
    using a(2) that by (simp add: list_all_iff)
  show "is_amount (cell_at l ''Net Sales $'')" if "l \<in> set (rows sales)" for l
    using a(3) that by (simp add: col_all_def list_all_iff)
  show "is_amount (cell_at k c)" if "k \<in> set (rows cost)" "c \<in> set cost_fields" for k c
    using a(4) that by (simp add: col_all_def list_all_iff)
  show "cell_at l' c \<noteq> NaN"
    if "c \<in> set (columns sales)" "l \<in> set (rows sales)" "is_Str (cell_at l c)"
      "l' \<in> set (rows sales)" for c l l'
  proof
    assume "cell_at l' c = NaN"
    with that have "list_ex (\<lambda>r. is_Str (cell_at r c)) (rows sales) \<and>
        list_ex (\<lambda>r. cell_at r c = NaN) (rows sales)"
      unfolding list_ex_iff by blast
    with nb that(1) show False
      by (auto simp: no_blank_text_def list_all_iff)
  qed
  show "\<not> is_Str (cell_at k c)"
    if "c \<in> set (columns cost)" "c \<noteq> ''Product ID''" "k \<in> set (rows cost)" for c k
    using tf that by (auto simp: col_all_def list_all_iff)
qed

lemma merge_blocks:
  assumes ok: "merge_inputs_ok sales cost"
  shows "merge sales cost ''Product ID'' =
    Inr \<lparr>columns = columns sales @ filter (\<lambda>c. c \<noteq> ''Product ID'') (columns cost),
         rows = concat (map (\<lambda>l. map (\<lambda>k. l @ cost_cells cost k) (matches cost l)) (rows sales))\<rparr>"
proof -
  note d = merge_inputs_okD [OF ok]
  have "merge sales cost ''Product ID'' =
    Inr \<lparr>columns = columns sales @ filter (\<lambda>c. c \<noteq> ''Product ID'') (columns cost),
         rows = concat (map (\<lambda>l.
           let ms = filter (\<lambda>r. cell_at r ''Product ID'' = cell_at l ''Product ID'') (rows cost)
           in if ms = [] then [l @ map (\<lambda>c. (c, NaN)) (filter (\<lambda>c. c \<noteq> ''Product ID'') (columns cost))]
              else map (\<lambda>r. l @ map (\<lambda>c. (c, cell_at r c)) (filter (\<lambda>c. c \<noteq> ''Product ID'') (columns cost))) ms)
           (rows sales))\<rparr>"
    by (rule merge_closed) (use d in auto)
  moreover have "(\<lambda>l. let ms = filter (\<lambda>r. cell_at r ''Product ID'' = cell_at l ''Product ID'') (rows cost)
           in if ms = [] then [l @ map (\<lambda>c. (c, NaN)) (filter (\<lambda>c. c \<noteq> ''Product ID'') (columns cost))]
              else map (\<lambda>r. l @ map (\<lambda>c. (c, cell_at r c)) (filter (\<lambda>c. c \<noteq> ''Product ID'') (columns cost))) ms)
      = (\<lambda>l. map (\<lambda>k. l @ cost_cells cost k) (matches cost l))"
    by (rule ext) (simp add: matches_def cost_cells_def Let_def comp_def)
  ultimately show ?thesis
    by simp
qed

lemma matches_cases:
  assumes "k \<in> set (matches cost l)"
  shows "k = None \<or> (\<exists>r\<in>set (rows cost). k = Some r \<and> cell_at r ''Product ID'' = cell_at l ''Product ID'')"
  using assms by (auto simp: matches_def Let_def split: if_splits)


lemma cell_at_cost_cells:
  "cell_at (cost_cells cost k) c =
     (if c \<in> set (columns cost) \<and> c \<noteq> ''Product ID''
      then (case k of None \<Rightarrow> NaN | Some r \<Rightarrow> cell_at r c) else NaN)"
  unfolding cost_cells_def cell_at_tabulate by simp

lemma fst_cost_cells: "fst ` set (cost_cells cost k) = set (columns cost) - {''Product ID''}"
  by (auto simp: cost_cells_def image_iff)

lemma joined_cells:
  assumes ok: "merge_inputs_ok sales cost" and l: "l \<in> set (rows sales)"
  shows "c \<in> set (columns sales) \<Longrightarrow> cell_at (l @ cost_cells cost k) c = cell_at l c"
    and "c \<in> set cost_fields \<Longrightarrow>
      cell_at (l @ cost_cells cost k) c = (case k of None \<Rightarrow> NaN | Some r \<Rightarrow> cell_at r c)"
    and "c \<in> set (columns sales) \<union> set cost_fields \<Longrightarrow> c \<in> fst ` set (l @ cost_cells cost k)"
proof -
  note d = merge_inputs_okD [OF ok]
  have fl: "fst ` set l = set (columns sales)"
    using d(3) [OF l] by (metis list.set_map)
  show "cell_at (l @ cost_cells cost k) c = cell_at l c" if "c \<in> set (columns sales)"
    using that fl by (simp add: cell_at_append_left)
  have cf: "c \<notin> set (columns sales) \<and> c \<in> set (columns cost) \<and> c \<noteq> ''Product ID''"
    if "c \<in> set cost_fields" for c
  proof -
    have "c \<in> set (columns cost)" using that d(8) by auto
    moreover have "c \<noteq> ''Product ID''" using that by (auto simp: cost_fields_def)
    ultimately show ?thesis using d(9) [of c] by auto
  qed
  show "cell_at (l @ cost_cells cost k) c = (case k of None \<Rightarrow> NaN | Some r \<Rightarrow> cell_at r c)"
    if "c \<in> set cost_fields"
    using cf [OF that] fl by (simp add: cell_at_append_right cell_at_cost_cells)
  show "c \<in> fst ` set (l @ cost_cells cost k)" if "c \<in> set (columns sales) \<union> set cost_fields"
    using that cf fl by (auto simp: image_Un fst_cost_cells)
qed

lemma joined_amounts_present:
  assumes ok: "merge_inputs_ok sales cost" and l: "l \<in> set (rows sales)"
    and k: "k \<in> set (matches cost l)"
  shows "amounts_present (l @ cost_cells cost k)"
proof -
  note d = merge_inputs_okD [OF ok]
  note jc = joined_cells [OF ok l]
  have ns: "''Net Sales $'' \<in> fst ` set (l @ cost_cells cost k) \<and>
      is_amount (cell_at (l @ cost_cells cost k) ''Net Sales $'')"
    using jc(1) [of "''Net Sales $''"] jc(3) [of "''Net Sales $''"] d(6) d(10) [OF l] by simp
  have cf: "c \<in> fst ` set (l @ cost_cells cost k) \<and> is_amount (cell_at (l @ cost_cells cost k) c)"
    if "c \<in> set cost_fields" for c
  proof -
    have "is_amount (case k of None \<Rightarrow> NaN | Some r \<Rightarrow> cell_at r c)"
      using matches_cases [OF k] d(11) that by (auto simp: is_amount_def)
    then show ?thesis
      using jc(2) [OF that] jc(3) [of c] that by simp
  qed
  show ?thesis
    unfolding amounts_present_def using ns cf by (simp add: cost_fields_def)
qed

lemma merge_data_blocks:
  assumes ok: "merge_inputs_ok sales cost"
  shows "\<exists>m. merge_data sales cost = Inr m \<and>
    rows m = concat (map (\<lambda>l. map (\<lambda>k. enrich (l @ cost_cells cost k)) (matches cost l)) (rows sales)) \<and>
    set (columns m) = set (columns sales) \<union> set (columns cost) \<union> {''Unit Cost'', ''Gross Margin $''}"
proof -
  note d = merge_inputs_okD [OF ok]
  let ?j = "\<lparr>columns = columns sales @ filter (\<lambda>c. c \<noteq> ''Product ID'') (columns cost),
         rows = concat (map (\<lambda>l. map (\<lambda>k. l @ cost_cells cost k) (matches cost l)) (rows sales))\<rparr>"
  have j: "merge sales cost ''Product ID'' = Inr ?j"
    by (rule merge_blocks [OF ok])
  have cols: "{''Net Sales $'', ''Standard Total Cost'', ''Material Cost'', ''Labor Cost'',
        ''Overhead Cost'', ''Service Cost''} \<subseteq> set (columns ?j)"
    using d(6) d(8) by (auto simp: cost_fields_def)
  have present: "amounts_present r" if "r \<in> set (rows ?j)" for r
    using that joined_amounts_present [OF ok] by auto
  have fillable: "\<not> (text_column ?j c \<and> list_ex (\<lambda>r. cell_at r c = NaN) (rows ?j))"
    if c: "c \<in> set (columns ?j)" for c
  proof
    assume "text_column ?j c \<and> list_ex (\<lambda>r. cell_at r c = NaN) (rows ?j)"
    then obtain r r' where r: "r \<in> set (rows ?j)" "is_Str (cell_at r c)"
      and r': "r' \<in> set (rows ?j)" "cell_at r' c = NaN"
      unfolding text_column_def list_ex_iff by blast
    from r(1) obtain l k where l: "l \<in> set (rows sales)" "k \<in> set (matches cost l)"
      "r = l @ cost_cells cost k"
      by auto
    from r'(1) obtain l' k' where l': "l' \<in> set (rows sales)" "r' = l' @ cost_cells cost k'"
      by auto
    show False
    proof (cases "c \<in> set (columns sales)")
      case True
      have "is_Str (cell_at l c)"
        using r(2) joined_cells(1) [OF ok l(1) True, of k] by (simp add: l(3))
      moreover have "cell_at l' c = NaN"
        using r'(2) joined_cells(1) [OF ok l'(1) True, of k'] by (simp add: l'(2))
      ultimately show False
        using d(12) [OF True l(1) _ l'(1)] by blast
    next
      case False
      then have cc: "c \<in> set (columns cost)" "c \<noteq> ''Product ID''"
        using c d(5) by auto
      have "fst ` set l = set (columns sales)"
        using d(3) [OF l(1)] by (metis list.set_map)
      then have "cell_at r c = (case k of None \<Rightarrow> NaN | Some x \<Rightarrow> cell_at x c)"
        using False cc by (simp add: l(3) cell_at_append_right cell_at_cost_cells)
      then obtain x where "k = Some x" "is_Str (cell_at x c)"
        using r(2) by (cases k) auto
      moreover from this matches_cases [OF l(2)] have "x \<in> set (rows cost)"
        by auto
      ultimately show False
        using d(13) [OF cc] by blast
    qed
  qed
  from merge_data_rows [OF j cols present fillable]
  obtain m where m: "merge_data sales cost = Inr m" "rows m = map enrich (rows ?j)"
    "set (columns m) = set (columns ?j) \<union> {''Unit Cost'', ''Gross Margin $''}"
    by blast
  have r: "rows m = concat (map (\<lambda>l. map (\<lambda>k. enrich (l @ cost_cells cost k)) (matches cost l)) (rows sales))"
    unfolding m(2) by (simp add: map_concat comp_def)
  have c: "set (columns m) =
      set (columns sales) \<union> set (columns cost) \<union> {''Unit Cost'', ''Gross Margin $''}"
    unfolding m(3) using d(5,7) by auto
  from m(1) r c show ?thesis
    by (intro exI conjI)
qed


lemma enrich_cells:
  assumes "amounts_present r"
  shows "cell_at (enrich r) ''Unit Cost'' = Num (unit_cost_of r)"
    and "cell_at (enrich r) ''Gross Margin $'' = Num (amount (cell_at r ''Net Sales $'') - unit_cost_of r)"
    and "cell_at (enrich r) ''Net Sales $'' = Num (amount (cell_at r ''Net Sales $''))"
    and "c \<noteq> ''Unit Cost'' \<Longrightarrow> c \<noteq> ''Gross Margin $'' \<Longrightarrow> c \<in> fst ` set r \<Longrightarrow>
      cell_at (enrich r) c = (if cell_at r c = NaN then Num 0 else cell_at r c)"
proof -
  show "cell_at (enrich r) ''Unit Cost'' = Num (unit_cost_of r)"
    by (simp add: enrich_def)
  show "cell_at (enrich r) ''Gross Margin $'' = Num (amount (cell_at r ''Net Sales $'') - unit_cost_of r)"
    by (simp add: enrich_def)
  have "''Net Sales $'' \<in> fst ` set r \<and> is_amount (cell_at r ''Net Sales $'')"
    using assms by (simp add: amounts_present_def)
  then show "cell_at (enrich r) ''Net Sales $'' = Num (amount (cell_at r ''Net Sales $''))"
    by (simp add: enrich_def is_amount_fill)
  show "cell_at (enrich r) c = (if cell_at r c = NaN then Num 0 else cell_at r c)"
    if "c \<noteq> ''Unit Cost''" "c \<noteq> ''Gross Margin $''" "c \<in> fst ` set r"
    using that by (simp add: enrich_def fill0_def cell_at_fill)
qed






section \<open>Claims about the merge engine\<close>






text \<open>
  Claim C4: a cost set with only some of the five cost columns should go through the
  merge without an error. The program reads all five columns of the merged table
  unconditionally, so each of the two layouts its own upload instructions ask for raises
  KeyError: the name of the first column that is not there.
\<close>

theorem documented_cost_layouts_raise:
  "merge_data one_sale total_only_cost = Inl (KeyError ''Material Cost'') \<and>
   merge_data one_sale components_only_cost = Inl (KeyError ''Standard Total Cost'')"
  by code_simp




section \<open>Claims about loading and validation\<close>

lemma load_sales_data_frame:
  "load_sales_data (Inr sales) =
     (if \<exists>c\<in>set [''Customer ID'', ''Product ID'', ''Net Sales $'', ''Salesperson'', ''Region''].
           c \<notin> set (columns sales)
      then (None, [SalesMissingColumns]) else (Some sales, []))"
  by (simp add: load_sales_data_def)

lemma load_cost_data_frame:
  "load_cost_data (Inr cost) =
     (if ''Product ID'' \<notin> set (columns cost) then (None, [CostMissingColumns]) else (Some cost, []))"
  by (simp add: load_cost_data_def)

lemma load_cost_data_messages:
  "SalesMissingColumns \<notin> set (snd (load_cost_data cf))"
  by (cases cf) (simp_all add: load_cost_data_def Let_def)

lemma run_frames:
  "run (Some sf) (Some cf) =
     (case (fst (load_sales_data sf), fst (load_cost_data cf)) of
        (Some sales, Some cost) \<Rightarrow>
          (snd (load_sales_data sf) @ snd (load_cost_data cf)
             @ (if length (rows sales) > 10000 then [SalesRowsWarning] else [])
             @ (if length (rows cost) > 10000 then [CostRowsWarning] else []),
           Some (ebind (merge_data sales cost) (\<lambda>merged_data.
             sequence (map (analyze_dimension merged_data)
               [''Customer ID'', ''Product ID'', ''Salesperson'', ''Region'']))))
      | _ \<Rightarrow> (snd (load_sales_data sf) @ snd (load_cost_data cf), None))"
  by (simp add: run_def split: prod.splits option.splits)

text \<open>
  Claim C9: the sales set fails validation exactly when one of the five column names
  \<open>Customer ID\<close>, \<open>Product ID\<close>, \<open>Net Sales $\<close>, \<open>Salesperson\<close>, \<open>Region\<close> is not
  among its columns. The loader then returns no frame and shows the sales message, and
  the run ends without merging or aggregating anything. Each input set has a message of
  its own: the run shows the sales message exactly when the sales set fails, and the cost
  message exactly when the cost set lacks \<open>Product ID\<close>.
\<close>

theorem sales_validation:
  "(fst (load_sales_data (Inr sales)) = None) =
     (\<exists>c\<in>set [''Customer ID'', ''Product ID'', ''Net Sales $'', ''Salesperson'', ''Region''].
        c \<notin> set (columns sales)) \<and>
   (fst (load_sales_data (Inr sales)) = None \<longrightarrow>
      snd (load_sales_data (Inr sales)) = [SalesMissingColumns] \<and>
      snd (run (Some (Inr sales)) (Some cf)) = None \<and>
      SalesMissingColumns \<in> set (fst (run (Some (Inr sales)) (Some cf)))) \<and>
   (fst (load_sales_data (Inr sales)) \<noteq> None \<longrightarrow>
      load_sales_data (Inr sales) = (Some sales, []) \<and>
      SalesMissingColumns \<notin> set (fst (run (Some (Inr sales)) (Some cf)))) \<and>
   (CostMissingColumns \<in> set (fst (run (Some (Inr sales)) (Some (Inr cost))))) =
     (''Product ID'' \<notin> set (columns cost))"
proof -
  have a: "(fst (load_sales_data (Inr sales)) = None) =
     (\<exists>c\<in>set [''Customer ID'', ''Product ID'', ''Net Sales $'', ''Salesperson'', ''Region''].
        c \<notin> set (columns sales))"
    unfolding load_sales_data_frame by simp
  have b: "snd (load_sales_data (Inr sales)) = [SalesMissingColumns] \<and>
      snd (run (Some (Inr sales)) (Some cf)) = None \<and>
      SalesMissingColumns \<in> set (fst (run (Some (Inr sales)) (Some cf)))"
    if "fst (load_sales_data (Inr sales)) = None"
  proof -
    have "load_sales_data (Inr sales) = (None, [SalesMissingColumns])"
      using that unfolding load_sales_data_frame by (simp split: if_splits)
    then show ?thesis
      unfolding run_frames by simp
  qed
  have c: "load_sales_data (Inr sales) = (Some sales, []) \<and>
      SalesMissingColumns \<notin> set (fst (run (Some (Inr sales)) (Some cf)))"
    if "fst (load_sales_data (Inr sales)) \<noteq> None"
  proof -
    have l: "load_sales_data (Inr sales) = (Some sales, [])"
      using that unfolding load_sales_data_frame by (simp split: if_splits)
    show ?thesis
      unfolding run_frames using l load_cost_data_messages [of cf]
      by (simp split: option.splits)
  qed
  have d: "(CostMissingColumns \<in> set (fst (run (Some (Inr sales)) (Some (Inr cost))))) =
     (''Product ID'' \<notin> set (columns cost))"
    unfolding run_frames load_cost_data_frame load_sales_data_frame
    by (simp split: option.splits)
  show ?thesis
    using a b c d by blast
qed

theorem sales_validation_witness:
  "fst (load_sales_data (Inr no_region_sales)) = None \<and>
   run (Some (Inr no_region_sales)) (Some (Inr sample_cost)) = ([SalesMissingColumns], None) \<and>
   load_sales_data (Inr sample_sales) = (Some sample_sales, []) \<and>
   fst (run (Some (Inr sample_sales)) (Some (Inr no_product_cost))) = [CostMissingColumns]"
proof -
  have n: "fst (load_sales_data (Inr no_region_sales)) = None"
    using sales_validation [of no_region_sales "Inr sample_cost" sample_cost]
    by (simp add: no_region_sales_def)
  have s: "fst (load_sales_data (Inr sample_sales)) \<noteq> None"
    using sales_validation [of sample_sales "Inr no_product_cost" no_product_cost]
    by (simp add: sample_sales_def sales_columns_def)
  have "run (Some (Inr no_region_sales)) (Some (Inr sample_cost)) = ([SalesMissingColumns], None)"
    using n sales_validation [of no_region_sales "Inr sample_cost" sample_cost]
    by (simp add: run_frames load_cost_data_frame sample_cost_def)
  moreover have "load_sales_data (Inr sample_sales) = (Some sample_sales, [])"
    using s sales_validation [of sample_sales "Inr no_product_cost" no_product_cost] by blast
  moreover have "fst (run (Some (Inr sample_sales)) (Some (Inr no_product_cost))) = [CostMissingColumns]"
    by (simp add: run_frames load_cost_data_frame load_sales_data_frame no_product_cost_def
        sample_sales_def sales_columns_def)
  ultimately show ?thesis
    using n by simp
qed

section \<open>Proofs: the dimension aggregator\<close>

lemma is_Num_amount: "is_Num c \<Longrightarrow> c = Num (amount c)"
  by (cases c) (simp_all add: is_Num_def amount_def)

lemma amount_Num [simp]: "amount (Num a) = a"
  by (simp add: amount_def)

lemma sum_from_Num: "sum_from (Num a) (map Num xs) = Inr (Num (a + sum_list xs))"
  by (induction xs arbitrary: a) (simp_all add: algebra_simps)

lemma col_sum_Num: "col_sum (map Num xs) = Inr (Num (sum_list xs))"
  by (simp add: col_sum_def sum_from_Num)

lemma cumsum_from_Num: "cumsum_from (Num a) (map Num xs) = Inr (map Num (running_sum a xs))"
  by (induction xs arbitrary: a) simp_all

lemma cumsum_Num: "cumsum (map Num xs) = Inr (map Num (running_sum 0 xs))"
  by (simp add: cumsum_def cumsum_from_Num)

lemma length_running_sum [simp]: "length (running_sum a xs) = length xs"
  by (induction xs arbitrary: a) simp_all

lemma col_pct_Num: "col_pct (map Num xs) (Num d) = Inr (map (\<lambda>x. float_div (100 * x) d) xs)"
  unfolding col_pct_def map_map by (rule sequence_map_ok) (simp add: float_div_def)

lemma col_pct2_Num:
  "col_pct2 (map Num xs) (map Num ys) = Inr (map2 (\<lambda>x y. float_div (100 * x) y) xs ys)"
proof -
  have "map2 (\<lambda>x y. ebind (cmul100 x) (\<lambda>z. cdiv z y)) (map Num xs) (map Num ys) =
      map (\<lambda>(x, y). ebind (cmul100 (Num x)) (\<lambda>z. cdiv z (Num y))) (zip xs ys)"
    by (simp add: zip_map_map split_def)
  also have "sequence \<dots> = Inr (map (\<lambda>(x, y). float_div (100 * x) y) (zip xs ys))"
    by (rule sequence_map_ok) (auto simp: float_div_def)
  finally show ?thesis
    by (simp add: col_pct2_def)
qed

lemma map2_update_col:
  assumes "length rs = length vs"
  shows "map (\<lambda>r. cell_at r c') (map2 (\<lambda>r v. AList.update c v r) rs vs) =
     (if c' = c then vs else map (\<lambda>r. cell_at r c') rs)"
  using assms by (induction rs vs rule: list_induct2) auto

lemma get_col_set_col:
  assumes "length vs = length (rows df)"
  shows "get_col (set_col df c vs) c' = (if c' = c then Inr vs else get_col df c')"
  using assms map2_update_col [of "rows df" vs c' c]
  by (auto simp: get_col_def set_col_def)

lemma length_rows_set_col:
  assumes "length vs = length (rows df)"
  shows "length (rows (set_col df c vs)) = length (rows df)"
  using assms by (simp add: set_col_def)

lemma get_col_length:
  assumes "get_col df c = Inr vs"
  shows "length vs = length (rows df)"
  using assms by (auto simp: get_col_def split: if_splits)

lemma group_sums:
  assumes "list_all (\<lambda>r. is_Num (cell_at r c)) rs"
  shows "col_sum (map (\<lambda>r. cell_at r c) (filter P rs)) =
     Inr (Num (sum_list (map (\<lambda>r. amount (cell_at r c)) (filter P rs))))"
proof -
  have "map (\<lambda>r. cell_at r c) (filter P rs) = map Num (map (\<lambda>r. amount (cell_at r c)) (filter P rs))"
    using assms by (auto simp: list_all_iff intro: is_Num_amount)
  then show ?thesis
    by (simp only: col_sum_Num)
qed

lemma groupby_closed:
  assumes ok: "summary_input_ok df g"
  shows "groupby_agg_sum df g ''Net Sales $'' ''Gross Margin $'' =
     Inr \<lparr>columns = [g, ''Net Sales $'', ''Gross Margin $''],
          rows = map (group_row df g) (group_keys df g)\<rparr>"
proof -
  have c: "g \<in> set (columns df)" "''Net Sales $'' \<in> set (columns df)"
    "''Gross Margin $'' \<in> set (columns df)" "g \<noteq> ''Net Sales $''" "g \<noteq> ''Gross Margin $''"
    and n: "list_all (\<lambda>r. is_Num (cell_at r ''Net Sales $'')) (rows df)"
    and m: "list_all (\<lambda>r. is_Num (cell_at r ''Gross Margin $'')) (rows df)"
    using ok by (simp_all add: summary_input_ok_def col_all_def)
  have "sequence (map (\<lambda>k.
               let grp = filter (\<lambda>r. cell_at r g = k) (rows df) in
               ebind (col_sum (map (\<lambda>r. cell_at r ''Net Sales $'') grp)) (\<lambda>s1.
               ebind (col_sum (map (\<lambda>r. cell_at r ''Gross Margin $'') grp)) (\<lambda>s2.
               Inr [(g, k), (''Net Sales $'', s1), (''Gross Margin $'', s2)]))) (group_keys df g))
      = Inr (map (group_row df g) (group_keys df g))"
    by (rule sequence_map_ok)
       (simp add: Let_def group_sums [OF n] group_sums [OF m] group_row_def group_total_def)
  then show ?thesis
    unfolding groupby_agg_sum_def using c
    by (simp add: Let_def group_keys_def [symmetric])
qed

lemma sort_desc_closed:
  assumes "c \<in> set (columns df)" and "list_all (\<lambda>r. is_Num (cell_at r c)) (rows df)"
  shows "sort_values df c False =
     Inr \<lparr>columns = columns df,
          rows = rev (sort_key (\<lambda>r. cell_key (cell_at r c)) (rev (rows df)))\<rparr>"
proof -
  have num: "\<exists>a. cell_at r c = Num a" if "r \<in> set (rows df)" for r
    using assms(2) that is_Num_amount [of "cell_at r c"] by (auto simp: list_all_iff)
  have a: "filter (\<lambda>r. cell_at r c \<noteq> NaN) (rows df) = rows df"
    using num by (fastforce simp: filter_id_conv)
  have b: "filter (\<lambda>r. cell_at r c = NaN) (rows df) = []"
    using num by (fastforce simp: filter_empty_conv)
  have d: "\<not> list_ex (\<lambda>r. is_Str (cell_at r c)) (rows df)"
    using num by (fastforce simp: list_ex_iff)
  show ?thesis
    unfolding sort_values_def Let_def a b using assms(1) d by simp
qed


lemma group_row_cells:
  assumes "g \<noteq> ''Net Sales $''" "g \<noteq> ''Gross Margin $''"
  shows "cell_at (group_row df g k) g = k"
    and "cell_at (group_row df g k) ''Net Sales $'' = Num (group_total df g ''Net Sales $'' k)"
    and "cell_at (group_row df g k) ''Gross Margin $'' = Num (group_total df g ''Gross Margin $'' k)"
  using assms by (simp_all add: group_row_def cell_at_def)

lemma set_ranked_groups: "set (ranked_groups df g) = group_row df g ` set (group_keys df g)"
  by (simp add: ranked_groups_def)

lemma generate_summary_columns:
  assumes ok: "summary_input_ok df g"
  shows "\<exists>s. generate_summary df g = Inr s \<and>
    length (rows s) = length (ranked_groups df g) \<and>
    get_col s g = Inr (ranked_keys df g) \<and>
    get_col s ''Net Sales $'' = Inr (map Num (ranked_sales df g)) \<and>
    get_col s ''Gross Margin $'' = Inr (map Num (ranked_margins df g)) \<and>
    get_col s ''% of Sales'' =
      Inr (map (\<lambda>x. float_div (100 * x) (total_sales df)) (ranked_sales df g)) \<and>
    get_col s ''Cumulative Sales $'' = Inr (map Num (running_sum 0 (ranked_sales df g))) \<and>
    get_col s ''Cumulative Sales %'' =
      Inr (map (\<lambda>x. float_div (100 * x) (total_sales df)) (running_sum 0 (ranked_sales df g))) \<and>
    get_col s ''Margin %'' =
      Inr (map2 (\<lambda>m n. float_div (100 * m) n) (ranked_margins df g) (ranked_sales df g)) \<and>
    get_col s ''Cumulative Margin $'' = Inr (map Num (running_sum 0 (ranked_margins df g))) \<and>
    get_col s ''Cumulative Profit %'' =
      Inr (map (\<lambda>x. float_div (100 * x) (sum_list (ranked_margins df g)))
             (running_sum 0 (ranked_margins df g)))"
proof -
  have c: "g \<in> set (columns df)" "''Net Sales $'' \<in> set (columns df)"
    "''Gross Margin $'' \<in> set (columns df)" "g \<noteq> ''Net Sales $''" "g \<noteq> ''Gross Margin $''"
    and n: "list_all (\<lambda>r. is_Num (cell_at r ''Net Sales $'')) (rows df)"
    and o: "g \<notin> set [''% of Sales'', ''Cumulative Sales $'',
        ''Cumulative Sales %'', ''Margin %'', ''Cumulative Margin $'', ''Cumulative Profit %'']"
    using ok by (simp_all add: summary_input_ok_def col_all_def)
  note gc = group_row_cells [OF c(4,5)]
  let ?G = "\<lparr>columns = [g, ''Net Sales $'', ''Gross Margin $''],
          rows = map (group_row df g) (group_keys df g)\<rparr>"
  let ?s0 = "\<lparr>columns = [g, ''Net Sales $'', ''Gross Margin $''], rows = ranked_groups df g\<rparr>"
  have "map (\<lambda>r. cell_at r ''Net Sales $'') (rows df) =
      map Num (map (\<lambda>r. amount (cell_at r ''Net Sales $'')) (rows df))"
    using n by (auto simp: list_all_iff intro: is_Num_amount)
  then have f1: "get_col df ''Net Sales $'' =
      Inr (map Num (map (\<lambda>r. amount (cell_at r ''Net Sales $'')) (rows df)))"
    using c(2) by (simp add: get_col_def)
  have f2: "col_sum (map Num (map (\<lambda>r. amount (cell_at r ''Net Sales $'')) (rows df))) =
      Inr (Num (total_sales df))"
    by (simp only: col_sum_Num total_sales_def)
  have f3: "groupby_agg_sum df g ''Net Sales $'' ''Gross Margin $'' = Inr ?G"
    by (rule groupby_closed [OF ok])
  have "list_all (\<lambda>r. is_Num (cell_at r ''Gross Margin $'')) (rows ?G)"
    by (simp add: list_all_iff gc is_Num_def)
  then have "sort_values ?G ''Gross Margin $'' False =
      Inr \<lparr>columns = columns ?G,
           rows = rev (sort_key (\<lambda>r. cell_key (cell_at r ''Gross Margin $'')) (rev (rows ?G)))\<rparr>"
    by (intro sort_desc_closed) simp_all
  then have f4: "sort_values ?G ''Gross Margin $'' False = Inr ?s0"
    by (simp add: ranked_groups_def)
  have f5: "get_col ?s0 ''Net Sales $'' = Inr (map Num (ranked_sales df g))"
    by (auto simp: get_col_def ranked_sales_def set_ranked_groups gc)
  have f6: "get_col ?s0 ''Gross Margin $'' = Inr (map Num (ranked_margins df g))"
    by (auto simp: get_col_def ranked_margins_def set_ranked_groups gc)
  have f7: "get_col ?s0 g = Inr (ranked_keys df g)"
    by (simp add: get_col_def ranked_keys_def)
  have l1: "length (ranked_sales df g) = length (rows ?s0)"
    and l2: "length (ranked_margins df g) = length (rows ?s0)"
    by (simp_all add: ranked_sales_def ranked_margins_def)
  show ?thesis
    unfolding generate_summary_def f1 ebind_Inr f2 f3 f4 Let_def
    using c(4,5) o l1 l2
    by (simp add: f5 f6 f7 get_col_set_col length_rows_set_col col_pct_Num cumsum_Num
        col_pct2_Num col_sum_Num)
qed

lemma sum_list_insort_key:
  fixes h :: "'a \<Rightarrow> rat"
  shows "sum_list (map h (insort_key f x xs)) = h x + sum_list (map h xs)"
  by (induction xs) (simp_all add: algebra_simps)

lemma sum_list_sort_key:
  fixes h :: "'a \<Rightarrow> rat"
  shows "sum_list (map h (sort_key f xs)) = sum_list (map h xs)"
  by (induction xs) (simp_all add: sum_list_insort_key)

lemma sorted_key_rat:
  fixes h :: "'a \<Rightarrow> rat"
  assumes "sorted (map (\<lambda>r. (1::nat, h r, []::string)) L)"
  shows "sorted (map h L)"
  using assms by (induction L) (auto simp: less_eq_prod_def)

lemma sum_list_partition:
  fixes h :: "'a \<Rightarrow> rat"
  assumes "finite K" "key ` set rs \<subseteq> K"
  shows "(\<Sum>k\<in>K. sum_list (map h (filter (\<lambda>r. key r = k) rs))) = sum_list (map h rs)"
  using assms(2)
proof (induction rs)
  case Nil
  then show ?case by simp
next
  case (Cons r rs)
  have "(\<Sum>k\<in>K. sum_list (map h (filter (\<lambda>x. key x = k) (r # rs)))) =
      (\<Sum>k\<in>K. (if key r = k then h r else 0) + sum_list (map h (filter (\<lambda>x. key x = k) rs)))"
    by (rule sum.cong) simp_all
  also have "\<dots> = (\<Sum>k\<in>K. if key r = k then h r else 0) +
      (\<Sum>k\<in>K. sum_list (map h (filter (\<lambda>x. key x = k) rs)))"
    by (simp add: sum.distrib)
  also have "(\<Sum>k\<in>K. if key r = k then h r else 0) = h r"
    using assms(1) Cons.prems by (simp add: sum.delta')
  finally show ?case
    using Cons by simp
qed

lemma distinct_group_keys: "distinct (group_keys df g)"
  by (simp add: group_keys_def)

lemma set_group_keys:
  assumes "summary_input_ok df g"
  shows "set (group_keys df g) = (\<lambda>r. cell_at r g) ` set (rows df)"
  using assms by (auto simp: group_keys_def summary_input_ok_def col_all_def list_all_iff)

lemma sum_group_totals:
  assumes ok: "summary_input_ok df g"
  shows "sum_list (map (group_total df g c) (group_keys df g)) =
     sum_list (map (\<lambda>r. amount (cell_at r c)) (rows df))"
proof -
  have "sum_list (map (group_total df g c) (group_keys df g)) =
      (\<Sum>k\<in>set (group_keys df g). group_total df g c k)"
    by (rule sum_list_distinct_conv_sum_set [OF distinct_group_keys])
  also have "\<dots> = sum_list (map (\<lambda>r. amount (cell_at r c)) (rows df))"
    unfolding group_total_def
    by (rule sum_list_partition) (simp_all add: set_group_keys [OF ok])
  finally show ?thesis .
qed

lemma summary_input_okD:
  assumes "summary_input_ok df g"
  shows "g \<noteq> ''Net Sales $''" "g \<noteq> ''Gross Margin $''"
  using assms by (simp_all add: summary_input_ok_def)

lemma ranked_sum:
  assumes ok: "summary_input_ok df g"
  shows "sum_list (ranked_sales df g) = total_sales df"
proof -
  note gc = group_row_cells [OF summary_input_okD [OF ok]]
  have "sum_list (ranked_sales df g) =
      sum_list (map (\<lambda>r. amount (cell_at r ''Net Sales $'')) (map (group_row df g) (group_keys df g)))"
    unfolding ranked_sales_def ranked_groups_def
    by (simp only: rev_map [symmetric] sum_list_rev sum_list_sort_key)
  also have "\<dots> = sum_list (map (group_total df g ''Net Sales $'') (group_keys df g))"
    by (simp add: comp_def gc)
  finally show ?thesis
    by (simp add: sum_group_totals [OF ok] total_sales_def)
qed

lemma ranked_margins_sorted:
  assumes ok: "summary_input_ok df g"
  shows "sorted (rev (ranked_margins df g))"
proof -
  note gc = group_row_cells [OF summary_input_okD [OF ok]]
  let ?f = "\<lambda>r. cell_key (cell_at r ''Gross Margin $'')"
  let ?L = "sort_key ?f (rev (map (group_row df g) (group_keys df g)))"
  have k: "?f r = (1, amount (cell_at r ''Gross Margin $''), [])" if "r \<in> set ?L" for r
    using that gc by auto
  have "sorted (map ?f ?L)"
    by (rule sorted_sort_key)
  also have "map ?f ?L = map (\<lambda>r. (1::nat, amount (cell_at r ''Gross Margin $''), []::string)) ?L"
    using k by (intro map_cong refl)
  finally have "sorted (map (\<lambda>r. amount (cell_at r ''Gross Margin $'')) ?L)"
    by (rule sorted_key_rat)
  then show ?thesis
    by (simp add: ranked_margins_def ranked_groups_def rev_map)
qed

lemma inj_cell_key: "cell_key a = cell_key b \<longleftrightarrow> a = b"
  by (cases a; cases b) simp_all

lemma running_sum_lower:
  assumes "\<forall>x\<in>set xs. 0 \<le> x" "y \<in> set (running_sum a xs)"
  shows "a \<le> y"
  using assms by (induction xs arbitrary: a) force+

lemma sorted_running_sum:
  assumes "\<forall>x\<in>set xs. 0 \<le> x"
  shows "sorted (running_sum a xs)"
  using assms
proof (induction xs arbitrary: a)
  case Nil
  then show ?case by simp
next
  case (Cons x xs)
  then have "\<forall>y\<in>set (running_sum (a + x) xs). a + x \<le> y"
    using running_sum_lower [of xs _ "a + x"] by simp
  with Cons show ?case by simp
qed

lemma last_running_sum:
  assumes "xs \<noteq> []"
  shows "last (running_sum a xs) = a + sum_list xs"
  using assms
proof (induction xs arbitrary: a)
  case Nil
  then show ?case by simp
next
  case (Cons x xs)
  then show ?case
    by (cases xs) (simp_all add: algebra_simps)
qed

lemma running_sum_eq_Nil [simp]: "running_sum a xs = [] \<longleftrightarrow> xs = []"
  by (cases xs) simp_all

lemma set_ranked_sales:
  assumes ok: "summary_input_ok df g"
  shows "set (ranked_sales df g) = group_total df g ''Net Sales $'' ` set (group_keys df g)"
    and "set (ranked_margins df g) = group_total df g ''Gross Margin $'' ` set (group_keys df g)"
  using group_row_cells [OF summary_input_okD [OF ok], of df]
  by (simp_all add: ranked_sales_def ranked_margins_def set_ranked_groups image_image)

section \<open>The concrete tables, evaluated\<close>

lemma merged_examples:
  "merge_data sample_sales sample_cost = Inr sample_merged"
  "merge_data loss_sales sample_cost = Inr loss_merged"
  "merge_data blank_sale sample_cost = Inr blank_merged"
  "merge_data tie_sales sample_cost = Inr tie_merged"
  by code_simp+

lemma summary_inputs_ok:
  "summary_input_ok sample_merged ''Customer ID''"
  "summary_input_ok loss_merged ''Customer ID''"
  "summary_input_ok blank_merged ''Customer ID''"
  "summary_input_ok tie_merged ''Customer ID''"
  by (simp_all add: summary_input_ok_def sample_merged_def loss_merged_def blank_merged_def
      tie_merged_def merged_columns_def sales_columns_def cost_fields_def merged_row_def sale_def
      col_all_def cell_at_def is_Num_def)

lemma summary_examples:
  "generate_summary sample_merged ''Customer ID'' = Inr sample_summary"
  "generate_summary loss_merged ''Customer ID'' = Inr loss_summary"
  "generate_summary blank_merged ''Customer ID'' = Inr blank_summary"
  "generate_summary tie_merged ''Customer ID'' = Inr tie_summary"
  by code_simp+

lemma map_Num_eq: "map Num xs = map Num ys \<longleftrightarrow> xs = ys"
  by (simp add: inj_map_eq_map inj_def)

lemma summary_example_columns:
  "get_col sample_summary ''Net Sales $'' = Inr (map Num [12000, 9500])"
  "get_col sample_summary ''Gross Margin $'' = Inr (map Num [4800, 2000])"
  "get_col blank_summary ''Net Sales $'' = Inr (map Num [0])"
  "get_col blank_summary ''Gross Margin $'' = Inr (map Num [- 7200])"
  by (simp_all add: get_col_def sample_summary_def blank_summary_def summary_columns_def
      summary_row_def cell_at_def)

lemma example_totals:
  "total_sales sample_merged = 21500" "total_sales blank_merged = 0"
  by (simp_all add: total_sales_def sample_merged_def blank_merged_def merged_row_def sale_def
      cell_at_def)

lemma float_div_nonzero: "b \<noteq> 0 \<Longrightarrow> float_div a b = Num (a / b)"
  by (simp add: float_div_def)

lemma sorted_pct:
  fixes xs :: "rat list"
  assumes "sorted xs" "0 < t"
  shows "sorted (map (\<lambda>x. 100 * x / t) xs)"
  using assms by (induction xs) (auto simp: divide_le_cancel)

text \<open>
  The tables the program hands to \<open>generate_summary\<close> are of the kind the claims
  below assume: for inputs of the merge engine that follow the data model, the merged
  table, grouped by a column of the sales set, satisfies \<open>summary_input_ok\<close>.
\<close>

lemma merged_table_summary_input_ok:
  assumes ok: "merge_inputs_ok sales cost" and m: "merge_data sales cost = Inr m"
    and g: "g \<in> set (columns sales)"
    and ng: "g \<notin> set [''Net Sales $'', ''Gross Margin $'', ''% of Sales'', ''Cumulative Sales $'',
        ''Cumulative Sales %'', ''Margin %'', ''Cumulative Margin $'', ''Cumulative Profit %'',
        ''Unit Cost'']"
  shows "summary_input_ok m g"
proof -
  note d = merge_inputs_okD [OF ok]
  from merge_data_blocks [OF ok] m
  have rm: "rows m = concat (map (\<lambda>l. map (\<lambda>k. enrich (l @ cost_cells cost k)) (matches cost l)) (rows sales))"
    and cm: "set (columns m) =
      set (columns sales) \<union> set (columns cost) \<union> {''Unit Cost'', ''Gross Margin $''}"
    by auto
  have row: "is_Num (cell_at r ''Net Sales $'') \<and> is_Num (cell_at r ''Gross Margin $'') \<and>
      cell_at r g \<noteq> NaN" if "r \<in> set (rows m)" for r
  proof -
    from that obtain l k where l: "l \<in> set (rows sales)" and k: "k \<in> set (matches cost l)"
      and r: "r = enrich (l @ cost_cells cost k)"
      unfolding rm by auto
    have ap: "amounts_present (l @ cost_cells cost k)"
      using k by (rule joined_amounts_present [OF ok l])
    note ec = enrich_cells [OF ap]
    have "g \<in> fst ` set (l @ cost_cells cost k)"
      using joined_cells(3) [OF ok l, of g k] g by simp
    then have "cell_at r g \<noteq> NaN"
      unfolding r using ec(4) [of g] ng by simp
    then show ?thesis
      unfolding r using ec(2,3) by (simp add: is_Num_def)
  qed
  show ?thesis
    unfolding summary_input_ok_def col_all_def list_all_iff
    using cm g d(6) ng row by auto
qed

text \<open>
  The example tables hold whole numbers that the machine adds exactly.
\<close>

lemma exact_examples:
  "exact_sums sample_merged" "exact_sums tie_merged"
  by (simp_all add: exact_sums_def col_all_def is_whole_def sample_merged_def tie_merged_def
      merged_row_def sale_def cell_at_def amount_def)

text \<open>
  A summary depends on the rows of its table, not on their order: the total, the groups
  in key order and the sums of each group are the same for every order of the rows.
\<close>

lemma sum_list_map_mset:
  fixes f :: "'a \<Rightarrow> rat"
  assumes "mset xs = mset ys"
  shows "sum_list (map f xs) = sum_list (map f ys)"
proof -
  have "sum_list (map f xs) = sum_mset (image_mset f (mset xs))"
    by (simp add: sum_mset_sum_list [symmetric] del: sum_mset_sum_list)
  also have "\<dots> = sum_mset (image_mset f (mset ys))"
    by (simp add: assms)
  also have "\<dots> = sum_list (map f ys)"
    by (simp add: sum_mset_sum_list [symmetric] del: sum_mset_sum_list)
  finally show ?thesis .
qed

lemma sorted_keys_unique:
  assumes "sorted (map cell_key ks)" "distinct ks" "sorted (map cell_key ks')" "distinct ks'"
    "set ks = set ks'"
  shows "ks = ks'"
proof -
  have "map cell_key ks = map cell_key ks'"
  proof (rule sorted_distinct_set_unique)
    show "distinct (map cell_key ks)" "distinct (map cell_key ks')"
      using assms(2,4) by (simp_all add: distinct_map inj_on_def inj_cell_key)
    show "set (map cell_key ks) = set (map cell_key ks')"
      using assms(5) by simp
  qed (use assms in simp_all)
  then show ?thesis
    by (simp add: inj_map_eq_map inj_def inj_cell_key)
qed

lemma reorder_facts:
  assumes "columns df' = columns df" and "mset (rows df') = mset (rows df)"
  shows "summary_input_ok df' g = summary_input_ok df g"
    and "total_sales df' = total_sales df"
    and "group_keys df' g = group_keys df g"
    and "group_total df' g c k = group_total df g c k"
proof -
  have s: "set (rows df') = set (rows df)"
    using assms(2) by (rule mset_eq_setD)
  show "summary_input_ok df' g = summary_input_ok df g"
    by (simp add: summary_input_ok_def col_all_def list_all_iff assms(1) s)
  show "total_sales df' = total_sales df"
    unfolding total_sales_def by (rule sum_list_map_mset [OF assms(2)])
  show "group_keys df' g = group_keys df g"
    unfolding group_keys_def
    by (rule sorted_keys_unique) (simp_all add: sorted_sort_key s)
  have "mset (filter (\<lambda>r. cell_at r g = k) (rows df')) = mset (filter (\<lambda>r. cell_at r g = k) (rows df))"
    by (simp add: assms(2))
  then show "group_total df' g c k = group_total df g c k"
    unfolding group_total_def by (rule sum_list_map_mset)
qed

lemma generate_summary_inputs:
  assumes ok: "summary_input_ok df g"
  shows "\<exists>ns. get_col df ''Net Sales $'' = Inr ns \<and> col_sum ns = Inr (Num (total_sales df))"
proof -
  have c: "''Net Sales $'' \<in> set (columns df)"
    and n: "list_all (\<lambda>r. is_Num (cell_at r ''Net Sales $'')) (rows df)"
    using assms by (simp_all add: summary_input_ok_def col_all_def)
  let ?ns = "map Num (map (\<lambda>r. amount (cell_at r ''Net Sales $'')) (rows df))"
  have "map (\<lambda>r. cell_at r ''Net Sales $'') (rows df) = ?ns"
    using n by (auto simp: list_all_iff intro: is_Num_amount)
  then have "get_col df ''Net Sales $'' = Inr ?ns"
    using c by (simp add: get_col_def)
  moreover have "col_sum ?ns = Inr (Num (total_sales df))"
    by (simp only: col_sum_Num total_sales_def)
  ultimately show ?thesis
    by (intro exI [of _ ?ns] conjI)
qed

lemma generate_summary_reorder:
  assumes ok: "summary_input_ok df g"
    and c: "columns df' = columns df" and r: "mset (rows df') = mset (rows df)"
  shows "generate_summary df' g = generate_summary df g"
proof -
  note f = reorder_facts [OF c r]
  have ok': "summary_input_ok df' g"
    using ok by (simp only: f(1))
  from generate_summary_inputs [OF ok] obtain ns
    where a: "get_col df ''Net Sales $'' = Inr ns" and b: "col_sum ns = Inr (Num (total_sales df))"
    by blast
  from generate_summary_inputs [OF ok'] obtain ns'
    where a': "get_col df' ''Net Sales $'' = Inr ns'" and b': "col_sum ns' = Inr (Num (total_sales df))"
    unfolding f(2) by blast
  have gr: "group_row df' g = group_row df g"
    by (rule ext) (simp only: group_row_def f(4))
  have g: "groupby_agg_sum df' g ''Net Sales $'' ''Gross Margin $'' =
      groupby_agg_sum df g ''Net Sales $'' ''Gross Margin $''"
    by (simp only: groupby_closed [OF ok] groupby_closed [OF ok'] gr f(3))
  show ?thesis
    by (simp only: generate_summary_def a a' b b' g ebind_Inr)
qed

section \<open>Claims about the dimension aggregator\<close>

text \<open>
  Claim C3, as stated, fails: the cumulative percentages are not monotone. With one
  customer at a gross margin of 4800 and one at -2500 (\<open>loss_merged\<close>, the merged table
  of \<open>loss_sales\<close>), Cumulative Profit % is 4800/23 (about 208.7) in the first row and
  100 in the second: the whale curve rises above 100 and comes back down.
\<close>

theorem whale_curve_counterexample:
  "generate_summary loss_merged ''Customer ID'' = Inr loss_summary \<and>
   get_col loss_summary ''Gross Margin $'' = Inr [Num 4800, Num (- 2500)] \<and>
   get_col loss_summary ''Cumulative Profit %'' = Inr [Num (4800 / 23), Num 100] \<and>
   \<not> (4800 / 23 \<le> (100 :: rat))"
  by (simp add: summary_examples)
     (simp add: get_col_def loss_summary_def summary_columns_def summary_row_def cell_at_def)

text \<open>
  Claim C3, amended, for a table whose net sales and gross margins are whole numbers
  that the machine adds exactly (\<open>exact_sums\<close>): the rows of a summary are in
  descending order of gross margin, and the cumulative columns are the running sums in
  that order; when total net sales (total gross margin) is not zero, the last Cumulative
  Sales % (Cumulative Profit %) is 100; Cumulative Sales % is non-decreasing when total
  net sales is positive and no group has negative net sales, and Cumulative Profit % is
  non-decreasing when total gross margin is positive and no group has a negative gross
  margin. Nothing is said of the order of rows with equal gross margins, and nothing of
  amounts whose sums the machine rounds or wraps around, where the last percentage need
  not be 100.
\<close>

theorem summary_ranked_and_cumulative:
  assumes "summary_input_ok df g" and "exact_sums df"
  shows "\<exists>s ns ms. generate_summary df g = Inr s \<and>
    get_col s ''Net Sales $'' = Inr (map Num ns) \<and>
    get_col s ''Gross Margin $'' = Inr (map Num ms) \<and> sorted (rev ms) \<and>
    get_col s ''Cumulative Sales $'' = Inr (map Num (running_sum 0 ns)) \<and>
    get_col s ''Cumulative Margin $'' = Inr (map Num (running_sum 0 ms)) \<and>
    (total_sales df \<noteq> 0 \<longrightarrow>
       (\<exists>cs. get_col s ''Cumulative Sales %'' = Inr cs \<and> cs \<noteq> [] \<and> last cs = Num 100)) \<and>
    (sum_list ms \<noteq> 0 \<longrightarrow>
       (\<exists>cp. get_col s ''Cumulative Profit %'' = Inr cp \<and> cp \<noteq> [] \<and> last cp = Num 100)) \<and>
    (0 < total_sales df \<and> (\<forall>n\<in>set ns. 0 \<le> n) \<longrightarrow>
       (\<exists>xs. get_col s ''Cumulative Sales %'' = Inr (map Num xs) \<and> sorted xs)) \<and>
    (0 < sum_list ms \<and> (\<forall>m\<in>set ms. 0 \<le> m) \<longrightarrow>
       (\<exists>ys. get_col s ''Cumulative Profit %'' = Inr (map Num ys) \<and> sorted ys))"
proof -
  note ok = assms(1)
  let ?ns = "ranked_sales df g"
  let ?ms = "ranked_margins df g"
  let ?T = "total_sales df"
  let ?M = "sum_list ?ms"
  from generate_summary_columns [OF ok]
  obtain s where s: "generate_summary df g = Inr s"
    and n: "get_col s ''Net Sales $'' = Inr (map Num ?ns)"
    and m: "get_col s ''Gross Margin $'' = Inr (map Num ?ms)"
    and cs: "get_col s ''Cumulative Sales $'' = Inr (map Num (running_sum 0 ?ns))"
    and csp: "get_col s ''Cumulative Sales %'' =
      Inr (map (\<lambda>x. float_div (100 * x) ?T) (running_sum 0 ?ns))"
    and cm: "get_col s ''Cumulative Margin $'' = Inr (map Num (running_sum 0 ?ms))"
    and cpp: "get_col s ''Cumulative Profit %'' =
      Inr (map (\<lambda>x. float_div (100 * x) ?M) (running_sum 0 ?ms))"
    by blast
  have tot: "sum_list ?ns = ?T"
    by (rule ranked_sum [OF ok])
  have last_pct: "map (\<lambda>x. float_div (100 * x) (sum_list xs)) (running_sum 0 xs) \<noteq> [] \<and>
      last (map (\<lambda>x. float_div (100 * x) (sum_list xs)) (running_sum 0 xs)) = Num 100"
    if "sum_list xs \<noteq> 0" for xs :: "rat list"
  proof -
    have ne: "xs \<noteq> []"
      using that by auto
    then show ?thesis
      using that by (simp add: last_map last_running_sum float_div_nonzero)
  qed
  have mono_pct: "\<exists>zs. map (\<lambda>x. float_div (100 * x) t) (running_sum 0 xs) = map Num zs \<and> sorted zs"
    if "0 < t" "\<forall>x\<in>set xs. 0 \<le> x" for xs :: "rat list" and t
  proof -
    have "map (\<lambda>x. float_div (100 * x) t) (running_sum 0 xs) =
        map Num (map (\<lambda>x. 100 * x / t) (running_sum 0 xs))"
      using that(1) by (simp add: float_div_nonzero comp_def)
    moreover have "sorted (map (\<lambda>x. 100 * x / t) (running_sum 0 xs))"
      using sorted_running_sum [OF that(2)] that(1) by (rule sorted_pct)
    ultimately show ?thesis
      by blast
  qed
  have a: "?T \<noteq> 0 \<longrightarrow>
       (\<exists>cs. get_col s ''Cumulative Sales %'' = Inr cs \<and> cs \<noteq> [] \<and> last cs = Num 100)"
    using last_pct [of ?ns] unfolding csp tot by blast
  have b: "?M \<noteq> 0 \<longrightarrow>
       (\<exists>cp. get_col s ''Cumulative Profit %'' = Inr cp \<and> cp \<noteq> [] \<and> last cp = Num 100)"
    using last_pct [of ?ms] unfolding cpp by blast
  have c: "0 < ?T \<and> (\<forall>n\<in>set ?ns. 0 \<le> n) \<longrightarrow>
       (\<exists>xs. get_col s ''Cumulative Sales %'' = Inr (map Num xs) \<and> sorted xs)"
    using mono_pct [of ?T ?ns] unfolding csp by auto
  have d: "0 < ?M \<and> (\<forall>m\<in>set ?ms. 0 \<le> m) \<longrightarrow>
       (\<exists>ys. get_col s ''Cumulative Profit %'' = Inr (map Num ys) \<and> sorted ys)"
    using mono_pct [of ?M ?ms] unfolding cpp by auto
  show ?thesis
    using s n m cs cm ranked_margins_sorted [OF ok] a b c d
    by (intro exI [of _ s] exI [of _ ?ns] exI [of _ ?ms] conjI)
qed

theorem summary_ranked_and_cumulative_witness:
  "summary_input_ok sample_merged ''Customer ID'' \<and> exact_sums sample_merged \<and>
   (\<exists>s xs ys. generate_summary sample_merged ''Customer ID'' = Inr s \<and>
      get_col s ''Gross Margin $'' = Inr [Num 4800, Num 2000] \<and>
      get_col s ''Cumulative Sales %'' = Inr (map Num xs) \<and> sorted xs \<and> last xs = 100 \<and>
      get_col s ''Cumulative Profit %'' = Inr (map Num ys) \<and> sorted ys \<and> last ys = 100)"
proof -
  from summary_ranked_and_cumulative [OF summary_inputs_ok(1) exact_examples(1)]
  obtain s ns ms where s: "generate_summary sample_merged ''Customer ID'' = Inr s"
    and n: "get_col s ''Net Sales $'' = Inr (map Num ns)"
    and m: "get_col s ''Gross Margin $'' = Inr (map Num ms)"
    and a: "total_sales sample_merged \<noteq> 0 \<longrightarrow>
       (\<exists>cs. get_col s ''Cumulative Sales %'' = Inr cs \<and> cs \<noteq> [] \<and> last cs = Num 100)"
    and b: "sum_list ms \<noteq> 0 \<longrightarrow>
       (\<exists>cp. get_col s ''Cumulative Profit %'' = Inr cp \<and> cp \<noteq> [] \<and> last cp = Num 100)"
    and c: "0 < total_sales sample_merged \<and> (\<forall>n\<in>set ns. 0 \<le> n) \<longrightarrow>
       (\<exists>xs. get_col s ''Cumulative Sales %'' = Inr (map Num xs) \<and> sorted xs)"
    and d: "0 < sum_list ms \<and> (\<forall>m\<in>set ms. 0 \<le> m) \<longrightarrow>
       (\<exists>ys. get_col s ''Cumulative Profit %'' = Inr (map Num ys) \<and> sorted ys)"
    by blast
  have e: "s = sample_summary"
    using s summary_examples(1) by simp
  have "Inr (map Num ns) = (Inr (map Num [12000, 9500]) :: error + cell list)"
    using n unfolding e summary_example_columns(1) by (rule sym)
  then have ns: "ns = [12000, 9500]"
    by (simp only: sum.inject map_Num_eq)
  have "Inr (map Num ms) = (Inr (map Num [4800, 2000]) :: error + cell list)"
    using m unfolding e summary_example_columns(2) by (rule sym)
  then have ms: "ms = [4800, 2000]"
    by (simp only: sum.inject map_Num_eq)
  from a obtain cs where cs: "get_col s ''Cumulative Sales %'' = Inr cs" "cs \<noteq> []" "last cs = Num 100"
    by (auto simp: example_totals)
  from c obtain xs where xs: "get_col s ''Cumulative Sales %'' = Inr (map Num xs)" "sorted xs"
    by (auto simp: example_totals ns)
  from b obtain cp where cp: "get_col s ''Cumulative Profit %'' = Inr cp" "cp \<noteq> []" "last cp = Num 100"
    by (auto simp: ms)
  from d obtain ys where ys: "get_col s ''Cumulative Profit %'' = Inr (map Num ys)" "sorted ys"
    by (auto simp: ms)
  have lx: "last xs = 100"
  proof -
    have eq: "cs = map Num xs"
      using cs(1) xs(1) by simp
    then have "xs \<noteq> []"
      using cs(2) by auto
    then show ?thesis
      using cs(3) eq by (simp add: last_map)
  qed
  have ly: "last ys = 100"
  proof -
    have eq: "cp = map Num ys"
      using cp(1) ys(1) by simp
    then have "ys \<noteq> []"
      using cp(2) by auto
    then show ?thesis
      using cp(3) eq by (simp add: last_map)
  qed
  have "get_col s ''Gross Margin $'' = Inr [Num 4800, Num 2000]"
    using m by (simp add: ms)
  with s xs ys lx ly summary_inputs_ok(1) exact_examples(1) show ?thesis
    by (intro conjI exI [of _ s] exI [of _ xs] exI [of _ ys])
qed




text \<open>
  Claim C7, as stated, fails: \<open>groupby\<close> sorts the groups by key before the summary is
  sorted by gross margin, so the order in which the input first shows the groups is lost.
  In \<open>tie_merged\<close> customer C002 comes first and C001 second, with equal margins; the
  summary has C001 first.
\<close>

theorem tie_order_counterexample:
  "get_col tie_merged ''Customer ID'' = Inr [Str ''C002'', Str ''C001''] \<and>
   generate_summary tie_merged ''Customer ID'' = Inr tie_summary \<and>
   get_col tie_summary ''Gross Margin $'' = Inr [Num 4800, Num 4800] \<and>
   get_col tie_summary ''Customer ID'' = Inr [Str ''C001'', Str ''C002'']"
  by (simp add: summary_examples)
     (simp add: get_col_def tie_summary_def tie_merged_def summary_columns_def summary_row_def
        merged_columns_def merged_row_def sales_columns_def sale_def cell_at_def)

text \<open>
  Claim C7, amended, for a table whose net sales and gross margins are whole numbers
  that the machine adds exactly: the summary does not depend on the order of the rows
  of the table. The table with its rows in any other order has the same summary, row
  for row, so groups with equal gross margins do not keep the order in which the input
  first shows them. Which of them comes first is left to the sort of the grouped table,
  whose rows are in key order; pandas' default sort promises no order of equal values.
\<close>

theorem summary_ignores_row_order:
  assumes "summary_input_ok df g" and "exact_sums df"
    and "columns df' = columns df" and "mset (rows df') = mset (rows df)"
  shows "\<exists>s. generate_summary df g = Inr s \<and> generate_summary df' g = Inr s"
proof -
  from generate_summary_columns [OF assms(1)]
  obtain s where s: "generate_summary df g = Inr s"
    by blast
  moreover have "generate_summary df' g = Inr s"
    using generate_summary_reorder [OF assms(1,3,4)] s by simp
  ultimately show ?thesis
    by (intro exI [of _ s] conjI)
qed

theorem summary_ignores_row_order_witness:
  "summary_input_ok tie_merged ''Customer ID'' \<and> exact_sums tie_merged \<and>
   columns tie_merged_reordered = columns tie_merged \<and>
   mset (rows tie_merged_reordered) = mset (rows tie_merged) \<and>
   get_col tie_merged ''Customer ID'' = Inr [Str ''C002'', Str ''C001''] \<and>
   get_col tie_merged_reordered ''Customer ID'' = Inr [Str ''C001'', Str ''C002''] \<and>
   (\<exists>s. generate_summary tie_merged ''Customer ID'' = Inr s \<and>
        generate_summary tie_merged_reordered ''Customer ID'' = Inr s)"
proof -
  have c: "columns tie_merged_reordered = columns tie_merged"
    and r: "mset (rows tie_merged_reordered) = mset (rows tie_merged)"
    by (simp_all add: tie_merged_reordered_def)
  have k: "get_col tie_merged ''Customer ID'' = Inr [Str ''C002'', Str ''C001'']"
    "get_col tie_merged_reordered ''Customer ID'' = Inr [Str ''C001'', Str ''C002'']"
    by (simp_all add: get_col_def tie_merged_reordered_def tie_merged_def merged_columns_def
        merged_row_def sales_columns_def sale_def cell_at_def)
  from summary_ignores_row_order [OF summary_inputs_ok(4) exact_examples(2) c r]
    summary_inputs_ok(4) exact_examples(2) c r k
  show ?thesis
    by (intro conjI)
qed
section \<open>Claims about the rank selector\<close>

lemma ranked_byI:
  assumes "\<And>r. r \<in> set vals \<Longrightarrow> cell_at r c \<noteq> NaN" "\<And>r. r \<in> set nans \<Longrightarrow> cell_at r c = NaN"
    "sorted (map (\<lambda>r. cell_key (cell_at r c)) (if ascending then vals else rev vals))"
  shows "ranked_by ascending c (vals @ nans)"
proof -
  have "filter (\<lambda>r. cell_at r c \<noteq> NaN) (vals @ nans) = vals"
    using assms(1,2) by (simp add: filter_id_conv filter_empty_conv)
  moreover have "filter (\<lambda>r. cell_at r c = NaN) (vals @ nans) = nans"
    using assms(1,2) by (simp add: filter_id_conv filter_empty_conv)
  ultimately show ?thesis
    using assms(3) by (simp add: ranked_by_def Let_def)
qed

lemma sort_values_numeric:
  assumes "c \<in> set (columns df)" and "col_all (\<lambda>x. \<not> is_Str x) df c"
  shows "\<exists>rs. sort_values df c ascending = Inr \<lparr>columns = columns df, rows = rs\<rparr> \<and>
    mset rs = mset (rows df) \<and> ranked_by ascending c rs"
proof -
  let ?k = "\<lambda>r. cell_at r c"
  let ?vals = "filter (\<lambda>r. ?k r \<noteq> NaN) (rows df)"
  let ?nans = "filter (\<lambda>r. ?k r = NaN) (rows df)"
  let ?sorted = "if ascending then sort_key (\<lambda>r. cell_key (?k r)) ?vals
      else rev (sort_key (\<lambda>r. cell_key (?k r)) (rev ?vals))"
  have "\<not> list_ex (\<lambda>r. is_Str (?k r)) ?vals"
    using assms(2) by (auto simp: col_all_def list_all_iff list_ex_iff)
  then have sv: "sort_values df c ascending = Inr \<lparr>columns = columns df, rows = ?sorted @ ?nans\<rparr>"
    unfolding sort_values_def Let_def using assms(1) by simp
  have part: "mset ?vals + mset ?nans = mset (rows df)"
  proof -
    have "mset (rows df) = filter_mset (\<lambda>r. ?k r = NaN) (mset (rows df)) +
        filter_mset (\<lambda>r. \<not> ?k r = NaN) (mset (rows df))"
      by (rule multiset_partition)
    then show ?thesis
      by (simp add: add.commute)
  qed
  have "mset ?sorted = mset ?vals"
    by simp
  then have ms: "mset (?sorted @ ?nans) = mset (rows df)"
    using part by (simp only: mset_append)
  have rk: "ranked_by ascending c (?sorted @ ?nans)"
  proof (rule ranked_byI)
    show "cell_at r c \<noteq> NaN" if "r \<in> set ?sorted" for r
      using that by (auto split: if_splits)
    show "cell_at r c = NaN" if "r \<in> set ?nans" for r
      using that by simp
    show "sorted (map (\<lambda>r. cell_key (cell_at r c)) (if ascending then ?sorted else rev ?sorted))"
      by (simp add: sorted_sort_key)
  qed
  from sv ms rk show ?thesis
    by blast
qed


text \<open>
  Claim C8: for a column of the summary that holds no text and a count \<open>n \<ge> 0\<close>,
  \<open>get_top_bottom\<close> returns the first \<open>n\<close> rows of the summary ranked descending by
  the column (the top) and the first \<open>n\<close> rows of the summary ranked ascending (the
  bottom). Each ranking holds exactly the rows of the summary, so each slice has
  \<open>min n (length (rows tbl))\<close> rows, all of them rows of the summary, unchanged, under
  the summary's columns; an \<open>n\<close> beyond the number of rows gives all of them. Left out,
  \<open>n\<close> is 20. The function only reads the summary: both results are new frames.
\<close>

theorem top_bottom_selection:
  assumes "field \<in> set (columns tbl)" and "col_all (\<lambda>x. \<not> is_Str x) tbl field"
    and "0 \<le> n"
  shows "\<exists>top bottom desc asc.
    get_top_bottom tbl field (Some n) = Inr (top, bottom) \<and>
    get_top_bottom tbl field None = get_top_bottom tbl field (Some 20) \<and>
    mset desc = mset (rows tbl) \<and> ranked_by False field desc \<and>
    mset asc = mset (rows tbl) \<and> ranked_by True field asc \<and>
    rows top = take (nat n) desc \<and> rows bottom = take (nat n) asc \<and>
    columns top = columns tbl \<and> columns bottom = columns tbl \<and>
    length (rows top) = min (nat n) (length (rows tbl)) \<and>
    length (rows bottom) = min (nat n) (length (rows tbl)) \<and>
    set (rows top) \<subseteq> set (rows tbl) \<and> set (rows bottom) \<subseteq> set (rows tbl)"
proof -
  from sort_values_numeric [OF assms(1,2), of False]
  obtain desc where d: "sort_values tbl field False = Inr \<lparr>columns = columns tbl, rows = desc\<rparr>"
    "mset desc = mset (rows tbl)" "ranked_by False field desc"
    by blast
  from sort_values_numeric [OF assms(1,2), of True]
  obtain asc where a: "sort_values tbl field True = Inr \<lparr>columns = columns tbl, rows = asc\<rparr>"
    "mset asc = mset (rows tbl)" "ranked_by True field asc"
    by blast
  let ?top = "head n \<lparr>columns = columns tbl, rows = desc\<rparr>"
  let ?bottom = "head n \<lparr>columns = columns tbl, rows = asc\<rparr>"
  have g: "get_top_bottom tbl field (Some n) = Inr (?top, ?bottom)"
    by (simp add: get_top_bottom_def d(1) a(1))
  have dflt: "get_top_bottom tbl field None = get_top_bottom tbl field (Some 20)"
    by (simp add: get_top_bottom_def)
  have rt: "rows ?top = take (nat n) desc" and rb: "rows ?bottom = take (nat n) asc"
    and ct: "columns ?top = columns tbl" and cb: "columns ?bottom = columns tbl"
    using assms(3) by (simp_all add: head_def)
  have ld: "length desc = length (rows tbl)" and la: "length asc = length (rows tbl)"
    using d(2) a(2) by (auto dest: mset_eq_length)
  have sd: "set desc = set (rows tbl)" and sa: "set asc = set (rows tbl)"
    using d(2) a(2) by (auto dest: mset_eq_setD)
  have lt: "length (rows ?top) = min (nat n) (length (rows tbl))"
    unfolding rt by (simp add: ld min.commute)
  have lb: "length (rows ?bottom) = min (nat n) (length (rows tbl))"
    unfolding rb by (simp add: la min.commute)
  have st: "set (rows ?top) \<subseteq> set (rows tbl)"
    unfolding rt using set_take_subset [of "nat n" desc] sd by simp
  have sb: "set (rows ?bottom) \<subseteq> set (rows tbl)"
    unfolding rb using set_take_subset [of "nat n" asc] sa by simp
  show ?thesis
    using g dflt d(2,3) a(2,3) rt rb ct cb lt lb st sb
    by (intro exI [of _ ?top] exI [of _ ?bottom] exI [of _ desc] exI [of _ asc] conjI)
qed

lemma sample_summary_numeric:
  "''Net Sales $'' \<in> set (columns sample_summary)"
  "col_all (\<lambda>x. \<not> is_Str x) sample_summary ''Net Sales $''"
  by (simp_all add: sample_summary_def summary_columns_def summary_row_def col_all_def cell_at_def)

theorem top_bottom_selection_witness:
  "''Net Sales $'' \<in> set (columns sample_summary) \<and>
   col_all (\<lambda>x. \<not> is_Str x) sample_summary ''Net Sales $'' \<and>
   (\<exists>top bottom. get_top_bottom sample_summary ''Net Sales $'' None = Inr (top, bottom) \<and>
      length (rows top) = 2 \<and> length (rows bottom) = 2 \<and>
      set (rows top) \<subseteq> set (rows sample_summary))"
proof -
  from top_bottom_selection [OF sample_summary_numeric, of 20]
  obtain top bottom where "get_top_bottom sample_summary ''Net Sales $'' (Some 20) = Inr (top, bottom)"
    "get_top_bottom sample_summary ''Net Sales $'' None =
       get_top_bottom sample_summary ''Net Sales $'' (Some 20)"
    "length (rows top) = min (nat 20) (length (rows sample_summary))"
    "length (rows bottom) = min (nat 20) (length (rows sample_summary))"
    "set (rows top) \<subseteq> set (rows sample_summary)"
    by auto
  moreover have "length (rows sample_summary) = 2"
    by (simp add: sample_summary_def)
  ultimately show ?thesis
    using sample_summary_numeric by (intro conjI exI [of _ top] exI [of _ bottom]) simp_all
qed

lemma top_bottom_example:
  "get_top_bottom sample_summary ''Net Sales $'' (Some 1) =
     Inr (\<lparr>columns = summary_columns ''Customer ID'', rows = [rows sample_summary ! 0]\<rparr>,
          \<lparr>columns = summary_columns ''Customer ID'', rows = [rows sample_summary ! 1]\<rparr>)"
  by code_simp

end
